theory Spec2Isabelle
  imports Complex_Main "HOL-Library.Word"
begin

unbundle bit_operations_syntax

section \<open>Little Module Player: data model\<close>

text \<open>
  The player (\<^verbatim>\<open>littlemodplayer.c\<close>, \<^verbatim>\<open>littlemodplayer.h\<close>) is embedded function by
  function.  C's fixed-width unsigned types are words of the same width; the values of
  type \<^verbatim>\<open>int\<close> that the code computes with stay far inside 32 bits and are \<^typ>\<open>int\<close>.
  The module file is the memory that \<^verbatim>\<open>mod_base\<close> points to: a function from byte
  offsets to bytes.  Every pointer of the C state points into that memory and is kept as
  its byte offset from \<^verbatim>\<open>mod_base\<close>.  The C code is never told how long the file is:
  the player functions compute with whatever the memory holds at the offsets they read.
  Where the length of the caller's slice matters, the loader is embedded a second time
  (\<open>lmp_init_checked\<close>) with every read checked against that length.
\<close>

type_synonym u8 = "8 word"
type_synonym u16 = "16 word"
type_synonym u32 = "32 word"
type_synonym memory = "nat \<Rightarrow> u8"

text \<open>
  The run-time faults, both undefined behaviour in C.  \<open>DivByZero\<close> is an integer
  division by zero (a trap on most hosts).  \<open>ReadPastEnd a\<close> is a read of the module at
  the byte offset \<open>a\<close> when the slice the caller holds ends at or before \<open>a\<close>.
\<close>

datatype lmp_fault = DivByZero | ReadPastEnd nat

text \<open>\<^verbatim>\<open>mpsamp_t\<close>: one instrument of the module.\<close>

record mpsamp_t =
  sample :: nat
  len :: u16
  repeat_pos :: u16
  repeat_len :: u16
  default_volume :: u8

text \<open>\<^verbatim>\<open>mpschan_t\<close>: one of the four voices (fields prefixed \<open>c_\<close>).\<close>

record mpschan_t =
  c_on :: u8
  c_vol :: u8
  c_inst :: u8
  c_looping :: u8
  c_pitch :: u16
  c_effect :: u8
  c_effect_param :: u8
  c_sample :: nat
  c_pos :: u32
  c_phaseinc :: u32
  c_len :: u32
  c_repeat_pos :: u32
  c_repeat_end :: u32

text \<open>
  \<^verbatim>\<open>mps_t\<close>: the player state.  The arrays \<^verbatim>\<open>inst[31]\<close> and \<^verbatim>\<open>cs[4]\<close> are
  functions of the index; the C arrays are the indices below 31 and below 4.
\<close>

record mps_t =
  mod_data :: memory
  instruments :: nat
  sequence :: nat
  length_m :: u8
  patterns :: nat
  inst :: "nat \<Rightarrow> mpsamp_t"
  pos :: u32
  pos_pattern :: u32
  speed :: u32
  tick_counter :: u32
  tempo :: u32
  thirtyone :: u8
  song_loop :: u8
  support_tempo :: u8
  stereo :: u8
  cs :: "nat \<Rightarrow> mpschan_t"
  sample_counter :: u32
  samples_per_tick :: u32

section \<open>Tunables and utilities\<close>

definition LMP_SAMPLERATE :: nat where
  "LMP_SAMPLERATE = 44100"

definition SAMP_FP_SPLIT :: nat where
  "SAMP_FP_SPLIT = 12"

text \<open>\<^verbatim>\<open>BS16\<close>, and \<^verbatim>\<open>BE_to_host16\<close> on the little-endian host the code defaults to.\<close>

definition BS16 :: "u16 \<Rightarrow> u16" where
  "BS16 x = ((drop_bit 8 x) AND 0xff) OR ((push_bit 8 x) AND 0xff00)"

definition BE_to_host16 :: "u16 \<Rightarrow> u16" where
  "BE_to_host16 x = BS16 x"

text \<open>
  \<^verbatim>\<open>lmp_samps_from_tempo\<close>: \<^verbatim>\<open>(125*LMP_SAMPLERATE/50)/tempo\<close> in unsigned arithmetic.
\<close>

definition lmp_samps_from_tempo :: "u32 \<Rightarrow> lmp_fault + u32" where
  "lmp_samps_from_tempo t =
     (if t = 0 then Inl DivByZero
      else Inr (of_nat ((125 * LMP_SAMPLERATE div 50) div unat t)))"

text \<open>
  \<^verbatim>\<open>lmp_pi_from_pitch\<close>:
  \<^verbatim>\<open>((1UL<<SAMP_FP_SPLIT)*254*14000ULL/LMP_SAMPLERATE)/(unsigned int)pitch\<close>, computed in
  64 bits and returned as \<^verbatim>\<open>uint32_t\<close>.
\<close>

definition lmp_pi_from_pitch :: "u16 \<Rightarrow> lmp_fault + u32" where
  "lmp_pi_from_pitch p =
     (if p = 0 then Inl DivByZero
      else Inr (of_nat (((2 ^ SAMP_FP_SPLIT * 254 * 14000) div LMP_SAMPLERATE) div unat p)))"

text \<open>
  Division of \<^verbatim>\<open>int\<close> in C truncates towards zero; \<open>div\<close> on \<^typ>\<open>int\<close> rounds down.
\<close>

definition c_div :: "int \<Rightarrow> int \<Rightarrow> int" where
  "c_div a b = (if (a < 0) = (b < 0) then \<bar>a\<bar> div \<bar>b\<bar> else - (\<bar>a\<bar> div \<bar>b\<bar>))"

text \<open>
  Loads from the module on the little-endian host: a \<^verbatim>\<open>uint16_t\<close> and a
  \<^verbatim>\<open>uint32_t\<close> at a byte offset, lowest byte first.
\<close>

definition load16 :: "memory \<Rightarrow> nat \<Rightarrow> u16" where
  "load16 m a = ucast (m a) OR push_bit 8 (ucast (m (a + 1)))"

definition load32 :: "memory \<Rightarrow> nat \<Rightarrow> u32" where
  "load32 m a = ucast (m a) OR push_bit 8 (ucast (m (a + 1)))
                  OR push_bit 16 (ucast (m (a + 2))) OR push_bit 24 (ucast (m (a + 3)))"

definition host_to_LE16 :: "int \<Rightarrow> int" where
  "host_to_LE16 x = x"

definition host_to_LE32 :: "u32 \<Rightarrow> u32" where
  "host_to_LE32 x = x"

text \<open>
  A \<^verbatim>\<open>for\<close> loop over a fixed range of indices whose body may fault: the body runs
  on each index in turn and the first fault ends the loop.
\<close>

primrec for_each :: "('s \<Rightarrow> nat \<Rightarrow> lmp_fault + 's) \<Rightarrow> nat list \<Rightarrow> 's \<Rightarrow> lmp_fault + 's" where
  "for_each body [] s = Inr s"
| "for_each body (i # is) s =
     (case body s i of Inl e \<Rightarrow> Inl e | Inr s' \<Rightarrow> for_each body is s')"

section \<open>Public functions: initialisation and options\<close>

text \<open>
  \<^verbatim>\<open>!strncmp("M.K.", (char *)(mod_base + 0x438), 4)\<close>: the four bytes at the offset are
  the letters of the magic.
\<close>

definition magic_MK :: "u8 list" where
  "magic_MK = [0x4D, 0x2E, 0x4B, 0x2E]"

definition strncmp_MK :: "memory \<Rightarrow> nat \<Rightarrow> bool" where
  "strncmp_MK m a = (map (\<lambda>k. m (a + k)) [0..<4] = magic_MK)"

text \<open>The scan of the 128 sequence bytes for the largest pattern number.\<close>

definition scan_max_patt :: "memory \<Rightarrow> nat \<Rightarrow> nat" where
  "scan_max_patt m seq =
     fold (\<lambda>i max_patt. if unat (m (seq + i)) > max_patt then unat (m (seq + i)) else max_patt)
       [0..<128] 0"

text \<open>
  The body of the instrument loop: instrument \<open>i\<close> is unpacked from its 30-byte header
  and its sample starts where the previous one ended.  The loop state is
  \<^verbatim>\<open>last_sample\<close> and the \<^verbatim>\<open>inst\<close> array.
\<close>

definition init_instrument ::
  "memory \<Rightarrow> nat \<Rightarrow> nat \<Rightarrow> nat \<times> (nat \<Rightarrow> mpsamp_t) \<Rightarrow> nat \<times> (nat \<Rightarrow> mpsamp_t)" where
  "init_instrument m instrs i st =
     (let last_sample = fst st;
          instr = instrs + i * 30;
          ins = (snd st i)
            \<lparr> sample := last_sample,
              len := BE_to_host16 (load16 m (instr + 2 * (10 + 1))) * 2,
              default_volume := ucast (0x7f AND BE_to_host16 (load16 m (instr + 2 * (10 + 2)))),
              repeat_pos := BE_to_host16 (load16 m (instr + 2 * (10 + 3))) * 2,
              repeat_len := BE_to_host16 (load16 m (instr + 2 * (10 + 4))) * 2 \<rparr>
      in (last_sample + unat (len ins), (snd st)(i := ins)))"

definition init_chan :: "mps_t \<Rightarrow> nat \<Rightarrow> mps_t" where
  "init_chan mps i =
     mps\<lparr>cs := (cs mps)(i := (cs mps i)\<lparr>c_on := 0, c_inst := 0, c_vol := 0x40, c_effect := 0xff\<rparr>)\<rparr>"

text \<open>
  \<^verbatim>\<open>lmp_init\<close>.  It takes the state to fill in (the fields it does not write keep what
  they held) and the module memory; it has no length argument and checks no offset.
  The result is the C return value with the new state.
\<close>

definition lmp_init :: "mps_t \<Rightarrow> memory \<Rightarrow> lmp_fault + (int \<times> mps_t)" where
  "lmp_init mps0 mod_base =
     (let mps1 = mps0\<lparr>mod_data := mod_base\<rparr>;
          mps2 = mps1\<lparr>thirtyone := (if strncmp_MK mod_base 0x438 then 1 else 0)\<rparr>;
          instrs = 0x14;
          mps3 = mps2\<lparr>instruments := instrs\<rparr>;
          mps4 = (if thirtyone mps3 \<noteq> 0
                  then mps3\<lparr>length_m := mod_base 0x3b6, sequence := 0x3b8, patterns := 0x43c\<rparr>
                  else mps3\<lparr>length_m := mod_base 0x1d6, sequence := 0x1d8, patterns := 0x258\<rparr>);
          max_patt = scan_max_patt mod_base (sequence mps4);
          samples_at = patterns mps4 + 4 * (256 * (max_patt + 1));
          filled = fold (init_instrument mod_base instrs)
                     [0..<(if thirtyone mps4 \<noteq> 0 then 31 else 15)] (samples_at, inst mps4);
          mps5 = mps4\<lparr>inst := snd filled\<rparr>;
          mps6 = fold (\<lambda>i mps. init_chan mps i) [0..<4] mps5;
          mps7 = mps6\<lparr>speed := 6, tick_counter := 0, pos := 0, pos_pattern := 0, tempo := 125\<rparr>
      in case lmp_samps_from_tempo (tempo mps7) of
           Inl e \<Rightarrow> Inl e
         | Inr spt \<Rightarrow>
             Inr (0, mps7\<lparr>samples_per_tick := spt, sample_counter := spt,
                         song_loop := 1, support_tempo := 1\<rparr>))"

text \<open>
  The memory behind \<^verbatim>\<open>mod_base\<close> when the caller's slice holds \<open>bytes\<close> and
  \<open>behind\<close> is whatever follows it in the address space.
\<close>

definition slice_memory :: "u8 list \<Rightarrow> memory \<Rightarrow> memory" where
  "slice_memory bytes behind = (\<lambda>a. if a < length bytes then bytes ! a else behind a)"

text \<open>
  \<^verbatim>\<open>lmp_init\<close> once more, on a slice of known length: every read of the module is a
  \<open>peek\<close>, which faults at an offset that is not inside the slice.  The reads are made in
  the order of the source: the magic, the song length, the 128 sequence bytes, then four
  halfwords of each instrument header.  \<^verbatim>\<open>strncmp\<close> compares byte by byte and stops at
  the first difference, so it reads no further than that.
\<close>

definition peek :: "u8 list \<Rightarrow> nat \<Rightarrow> lmp_fault + u8" where
  "peek bytes a = (if a < length bytes then Inr (bytes ! a) else Inl (ReadPastEnd a))"

definition peek16 :: "u8 list \<Rightarrow> nat \<Rightarrow> lmp_fault + u16" where
  "peek16 bytes a =
     (case peek bytes a of
        Inl e \<Rightarrow> Inl e
      | Inr b0 \<Rightarrow>
          (case peek bytes (a + 1) of
             Inl e \<Rightarrow> Inl e
           | Inr b1 \<Rightarrow> Inr (ucast b0 OR push_bit 8 (ucast b1))))"

primrec strncmp_checked :: "u8 list \<Rightarrow> u8 list \<Rightarrow> nat \<Rightarrow> lmp_fault + bool" where
  "strncmp_checked [] bytes a = Inr True"
| "strncmp_checked (c # rest) bytes a =
     (case peek bytes a of
        Inl e \<Rightarrow> Inl e
      | Inr b \<Rightarrow> if b = c then strncmp_checked rest bytes (a + 1) else Inr False)"

definition scan_step_checked :: "u8 list \<Rightarrow> nat \<Rightarrow> nat \<Rightarrow> nat \<Rightarrow> lmp_fault + nat" where
  "scan_step_checked bytes seq max_patt i =
     (case peek bytes (seq + i) of
        Inl e \<Rightarrow> Inl e
      | Inr b \<Rightarrow> Inr (if unat b > max_patt then unat b else max_patt))"

definition init_instrument_checked ::
  "u8 list \<Rightarrow> nat \<Rightarrow> nat \<times> (nat \<Rightarrow> mpsamp_t) \<Rightarrow> nat
     \<Rightarrow> lmp_fault + nat \<times> (nat \<Rightarrow> mpsamp_t)" where
  "init_instrument_checked bytes instrs st i =
     (let last_sample = fst st;
          instr = instrs + i * 30
      in case peek16 bytes (instr + 2 * (10 + 1)) of
           Inl e \<Rightarrow> Inl e
         | Inr h_len \<Rightarrow>
        (case peek16 bytes (instr + 2 * (10 + 2)) of
           Inl e \<Rightarrow> Inl e
         | Inr h_vol \<Rightarrow>
        (case peek16 bytes (instr + 2 * (10 + 3)) of
           Inl e \<Rightarrow> Inl e
         | Inr h_pos \<Rightarrow>
        (case peek16 bytes (instr + 2 * (10 + 4)) of
           Inl e \<Rightarrow> Inl e
         | Inr h_rep \<Rightarrow>
             (let ins = (snd st i)
                    \<lparr> sample := last_sample,
                      len := BE_to_host16 h_len * 2,
                      default_volume := ucast (0x7f AND BE_to_host16 h_vol),
                      repeat_pos := BE_to_host16 h_pos * 2,
                      repeat_len := BE_to_host16 h_rep * 2 \<rparr>
              in Inr (last_sample + unat (len ins), (snd st)(i := ins)))))))"

definition lmp_init_checked ::
  "mps_t \<Rightarrow> u8 list \<Rightarrow> memory \<Rightarrow> lmp_fault + (int \<times> mps_t)" where
  "lmp_init_checked mps0 bytes behind =
     (let mps1 = mps0\<lparr>mod_data := slice_memory bytes behind\<rparr>
      in case strncmp_checked magic_MK bytes 0x438 of
           Inl e \<Rightarrow> Inl e
         | Inr mk \<Rightarrow>
        (let mps2 = mps1\<lparr>thirtyone := (if mk then 1 else 0)\<rparr>;
             instrs = 0x14;
             mps3 = mps2\<lparr>instruments := instrs\<rparr>
         in case peek bytes (if thirtyone mps3 \<noteq> 0 then 0x3b6 else 0x1d6) of
              Inl e \<Rightarrow> Inl e
            | Inr song_length \<Rightarrow>
           (let mps4 = (if thirtyone mps3 \<noteq> 0
                        then mps3\<lparr>length_m := song_length, sequence := 0x3b8, patterns := 0x43c\<rparr>
                        else mps3\<lparr>length_m := song_length, sequence := 0x1d8, patterns := 0x258\<rparr>)
            in case for_each (scan_step_checked bytes (sequence mps4)) [0..<128] 0 of
                 Inl e \<Rightarrow> Inl e
               | Inr max_patt \<Rightarrow>
              (let samples_at = patterns mps4 + 4 * (256 * (max_patt + 1))
               in case for_each (init_instrument_checked bytes instrs)
                         [0..<(if thirtyone mps4 \<noteq> 0 then 31 else 15)] (samples_at, inst mps4) of
                    Inl e \<Rightarrow> Inl e
                  | Inr filled \<Rightarrow>
                 (let mps5 = mps4\<lparr>inst := snd filled\<rparr>;
                      mps6 = fold (\<lambda>i mps. init_chan mps i) [0..<4] mps5;
                      mps7 = mps6\<lparr>speed := 6, tick_counter := 0, pos := 0, pos_pattern := 0,
                               tempo := 125\<rparr>
                  in case lmp_samps_from_tempo (tempo mps7) of
                       Inl e \<Rightarrow> Inl e
                     | Inr spt \<Rightarrow>
                         Inr (0, mps7\<lparr>samples_per_tick := spt, sample_counter := spt,
                                     song_loop := 1, support_tempo := 1\<rparr>))))))"




definition lmp_get_length :: "mps_t \<Rightarrow> u32" where
  "lmp_get_length mps = ucast (length_m mps)"

definition lmp_set_pos :: "mps_t \<Rightarrow> u32 \<Rightarrow> mps_t" where
  "lmp_set_pos mps p =
     (if p < ucast (length_m mps) then mps\<lparr>pos := p, pos_pattern := 0\<rparr> else mps)"

section \<open>Sequencer: effect commands and the tick\<close>

definition set_chan :: "mps_t \<Rightarrow> nat \<Rightarrow> mpschan_t \<Rightarrow> mps_t" where
  "set_chan mps chan c = mps\<lparr>cs := (cs mps)(chan := c)\<rparr>"

text \<open>\<^verbatim>\<open>lmp_process_command\<close>, one branch per \<^verbatim>\<open>case\<close> of the switch.\<close>

definition lmp_process_command :: "mps_t \<Rightarrow> nat \<Rightarrow> u8 \<Rightarrow> u8 \<Rightarrow> lmp_fault + mps_t" where
  "lmp_process_command mps chan command val =
     (if command = 0 then Inr mps
      else if command = 1 \<or> command = 2 then
        Inr (set_chan mps chan ((cs mps chan)\<lparr>c_effect := command, c_effect_param := val\<rparr>))
      else if command = 10 then
        (let v = sint val;
             vol = uint (c_vol (cs mps chan)) + v;
             vol1 = (if vol > 0x40 then 0x40 else vol);
             vol2 = (if vol1 < 0 then 0 else vol1)
         in Inr (set_chan mps chan ((cs mps chan)\<lparr>c_vol := word_of_int vol2\<rparr>)))
      else if command = 11 then
        (let mps1 = mps\<lparr>pos_pattern := 0, pos := ucast val\<rparr>
         in Inr (if val = 0 then mps1\<lparr>pos := NOT 0\<rparr> else mps1))
      else if command = 12 then
        (let val1 = (if val > 0x40 then 0x40 else val)
         in Inr (set_chan mps chan ((cs mps chan)\<lparr>c_vol := val1\<rparr>)))
      else if command = 13 then
        (let p = uint (drop_bit 4 (val AND 0xf0)) * 10 + uint (val AND 0xf)
         in if p > 63 then Inr mps
            else Inr (mps\<lparr>pos_pattern := word_of_int p, pos := pos mps + 1\<rparr>))
      else if command = 15 then
        (let mps1 = (if val > 0 \<and> val < 0x1f
                     then mps\<lparr>speed := ucast val, tick_counter := ucast val\<rparr>
                     else mps)
         in if val \<ge> 0x20 then
              (if support_tempo mps1 \<noteq> 0 then
                 (case lmp_samps_from_tempo (ucast val) of
                    Inl e \<Rightarrow> Inl e
                  | Inr spt \<Rightarrow> Inr (mps1\<lparr>tempo := ucast val, samples_per_tick := spt\<rparr>))
               else Inr mps1)
            else Inr mps1)
      else Inr mps)"

text \<open>
  The body of the loop of an inter-row tick: the slide of one channel.  The pitch is a
  \<^verbatim>\<open>uint16_t\<close>, so the subtraction and the addition wrap around at 16 bits before the
  clamp compares.
\<close>

definition tick_effect_chan :: "mps_t \<Rightarrow> nat \<Rightarrow> lmp_fault + mps_t" where
  "tick_effect_chan mps chan =
     (let c = cs mps chan in
      if c_effect c = 1 \<or> c_effect c = 2 then
        (let c1 = (if c_effect c = 1 then
                     (let c' = c\<lparr>c_pitch := c_pitch c - ucast (c_effect_param c)\<rparr>
                      in if c_pitch c' < 113 then c'\<lparr>c_pitch := 113\<rparr> else c')
                   else
                     (let c' = c\<lparr>c_pitch := c_pitch c + ucast (c_effect_param c)\<rparr>
                      in if c_pitch c' > 856 then c'\<lparr>c_pitch := 856\<rparr> else c'))
         in case lmp_pi_from_pitch (c_pitch c1) of
              Inl e \<Rightarrow> Inl e
            | Inr inc \<Rightarrow> Inr (set_chan mps chan (c1\<lparr>c_phaseinc := inc\<rparr>)))
      else Inr mps)"

text \<open>The fields of a note cell, cut out of the 32-bit word as the row loop does.\<close>

definition note_val :: "u32 \<Rightarrow> u8" where
  "note_val note = ucast (drop_bit 24 note)"

definition note_inst :: "u32 \<Rightarrow> u8" where
  "note_inst note = ucast ((drop_bit 20 note AND 0xf) OR (note AND 0x10))"

definition note_freq :: "u32 \<Rightarrow> u16" where
  "note_freq note = ucast ((push_bit 8 note AND 0xf00) OR (drop_bit 8 note AND 0xff))"

definition note_command :: "u32 \<Rightarrow> u8" where
  "note_command note = ucast (drop_bit 16 note AND 0xf)"

text \<open>
  The body of the row loop for one channel; \<open>current_frame\<close> is the byte offset of the
  row's first cell.
\<close>

definition tick_row_chan :: "nat \<Rightarrow> mps_t \<Rightarrow> nat \<Rightarrow> lmp_fault + mps_t" where
  "tick_row_chan current_frame mps chan =
     (let note = host_to_LE32 (load32 (mod_data mps) (current_frame + 4 * chan));
          val = note_val note;
          ins = note_inst note;
          freq = note_freq note;
          command = note_command note;
          mps1 = set_chan mps chan ((cs mps chan)\<lparr>c_effect := 0xff\<rparr>)
      in if freq \<noteq> 0 \<and> ins \<le> (if thirtyone mps1 \<noteq> 0 then 31 else 15) then
           (let c1 = (cs mps1 chan)\<lparr>c_on := 1\<rparr>;
                c2 = (if ins \<noteq> 0
                      then c1\<lparr>c_inst := ins - 1,
                              c_vol := default_volume (inst mps1 (unat (ins - 1)))\<rparr>
                      else c1);
                i = inst mps1 (unat (c_inst c2));
                c3 = c2\<lparr>c_sample := sample i, c_pos := 0,
                        c_len := push_bit SAMP_FP_SPLIT (ucast (len i))\<rparr>;
                c4 = (if repeat_len i \<noteq> 1 * 2
                      then c3\<lparr>c_looping := 1,
                              c_repeat_pos := push_bit SAMP_FP_SPLIT (ucast (repeat_pos i)),
                              c_repeat_end := push_bit SAMP_FP_SPLIT
                                                (ucast (repeat_pos i) + ucast (repeat_len i))\<rparr>
                      else c3\<lparr>c_looping := 0\<rparr>)
            in case lmp_pi_from_pitch freq of
                 Inl e \<Rightarrow> Inl e
               | Inr inc \<Rightarrow>
                   lmp_process_command
                     (set_chan mps1 chan (c4\<lparr>c_phaseinc := inc, c_pitch := freq\<rparr>))
                     chan command val)
         else lmp_process_command mps1 chan command val)"

text \<open>\<^verbatim>\<open>lmp_tick\<close>; the first component of the result is the C return value ("done").\<close>

definition lmp_tick :: "mps_t \<Rightarrow> lmp_fault + (int \<times> mps_t)" where
  "lmp_tick mps =
     (if tick_counter mps > 1 then
        (case for_each tick_effect_chan [0..<4] mps of
           Inl e \<Rightarrow> Inl e
         | Inr mps1 \<Rightarrow> Inr (0, mps1\<lparr>tick_counter := tick_counter mps1 - 1\<rparr>))
      else
        (let mps1 = mps\<lparr>tick_counter := speed mps\<rparr>;
             current_pattern = mod_data mps1 (sequence mps1 + unat (pos mps1));
             current_frame = patterns mps1
                + 4 * unat (256 * ucast current_pattern + 4 * pos_pattern mps1 :: u32);
             mps2 = mps1\<lparr>pos_pattern := pos_pattern mps1 + 1\<rparr>
         in case for_each (tick_row_chan current_frame) [0..<4] mps2 of
              Inl e \<Rightarrow> Inl e
            | Inr mps3 \<Rightarrow>
                (let mps4 = (if pos_pattern mps3 > 63
                             then mps3\<lparr>pos := pos mps3 + 1, pos_pattern := 0\<rparr>
                             else mps3)
                 in if pos mps4 \<ge> ucast (length_m mps4) then
                      (let mps5 = mps4\<lparr>pos := 0\<rparr>
                       in if song_loop mps5 = 0 then Inr (1, mps5) else Inr (0, mps5))
                    else Inr (0, mps4))))"

section \<open>Channel rendering and mixdown\<close>

type_synonym s16 = "16 word"

text \<open>
  The body of the loop of \<^verbatim>\<open>lmp_render_samples\<close>: the sample of one channel, as the
  \<^verbatim>\<open>int\<close> \<open>c\<close> before the cast to \<^verbatim>\<open>int16_t\<close>, and the channel's new state.
  \<^verbatim>\<open>>>\<close> on a negative \<^verbatim>\<open>int\<close> is the arithmetic shift.
\<close>

definition render_chan :: "memory \<Rightarrow> mpschan_t \<Rightarrow> int \<times> mpschan_t" where
  "render_chan m c =
     (if c_on c \<noteq> 0 then
        (let frac = uint (c_pos c AND (push_bit SAMP_FP_SPLIT 1 - 1));
             nfrac = 2 ^ SAMP_FP_SPLIT - uint (c_pos c AND (push_bit SAMP_FP_SPLIT 1 - 1));
             c1 = sint (m (c_sample c + unat (drop_bit SAMP_FP_SPLIT (c_pos c)))) * 0x100;
             c2 = (if drop_bit SAMP_FP_SPLIT (c_pos c) < drop_bit SAMP_FP_SPLIT (c_len c)
                   then sint (m (c_sample c + (unat (drop_bit SAMP_FP_SPLIT (c_pos c)) + 1))) * 0x100
                   else c1);
             v = ((c1 * nfrac) + (c2 * frac)) div 2 ^ SAMP_FP_SPLIT;
             v1 = c_div (v * uint (c_vol c)) 64;
             ca = c\<lparr>c_pos := c_pos c + c_phaseinc c\<rparr>;
             cb = (if c_looping ca < 2 \<and> c_pos ca > c_len ca
                   then (if c_looping ca = 0 then ca\<lparr>c_on := 0\<rparr> else ca\<lparr>c_looping := 2\<rparr>)
                   else ca);
             cc = (if c_looping cb = 2 \<and> c_pos cb > c_repeat_end cb
                   then cb\<lparr>c_pos := c_repeat_pos cb\<rparr>
                   else cb)
         in (v1, cc))
      else (0, c))"

text \<open>
  \<^verbatim>\<open>lmp_render_samples\<close>: the four channels in order, each result cast to
  \<^verbatim>\<open>int16_t\<close> and stored in \<^verbatim>\<open>csamp[chan]\<close>.
\<close>

definition render_step :: "s16 list \<times> mps_t \<Rightarrow> nat \<Rightarrow> s16 list \<times> mps_t" where
  "render_step st chan =
     (let r = render_chan (mod_data (snd st)) (cs (snd st) chan)
      in ((fst st)[chan := word_of_int (fst r)], set_chan (snd st) chan (snd r)))"

definition lmp_render_samples :: "mps_t \<Rightarrow> s16 list \<times> mps_t" where
  "lmp_render_samples mps = fold (\<lambda>chan st. render_step st chan) [0..<4] (replicate 4 0, mps)"

definition lmp_check_for_tick :: "mps_t \<Rightarrow> lmp_fault + (int \<times> mps_t)" where
  "lmp_check_for_tick mps =
     (let mps1 = mps\<lparr>sample_counter := sample_counter mps - 1\<rparr>
      in if sample_counter mps1 = 0
         then lmp_tick (mps1\<lparr>sample_counter := samples_per_tick mps1\<rparr>)
         else Inr (0, mps1))"

text \<open>
  The three buffer-filling loops.  The loop counter \<open>i\<close> and the buffer size are
  \<^verbatim>\<open>unsigned int\<close>.  The buffer is the list of the samples stored so far: the stores go
  to the indices 0, 1, 2, ... in this order, so the \<open>k\<close>-th element of the list is what
  \<^verbatim>\<open>samples[k]\<close> holds.  A loop returns \<open>None\<close> when it never ends, \<open>Some (Inl e)\<close> when a
  tick faults, and otherwise the C return value, the samples stored and the new state.
\<close>

type_synonym fill_result = "(lmp_fault + (int \<times> s16 list \<times> mps_t)) option"

partial_function (option) fill_mono_loop ::
  "u32 \<Rightarrow> u32 \<Rightarrow> int \<Rightarrow> s16 list \<Rightarrow> mps_t \<Rightarrow> fill_result" where
  "fill_mono_loop i n done_flag samples mps =
     (if i < n then
        (let r = lmp_render_samples mps;
             csamp = fst r;
             sum = fold (\<lambda>chan sum. sum + sint (csamp ! chan)) [0..<4] 0;
             samples1 = samples @ [word_of_int (host_to_LE16 (c_div sum 4))]
         in case lmp_check_for_tick (snd r) of
              Inl e \<Rightarrow> Some (Inl e)
            | Inr t \<Rightarrow> fill_mono_loop (i + 1) n (done_flag OR fst t) samples1 (snd t))
      else Some (Inr ((if done_flag = 0 then 1 else 0), samples, mps)))"

definition lmp_fill_buffer_mono :: "mps_t \<Rightarrow> u32 \<Rightarrow> fill_result" where
  "lmp_fill_buffer_mono mps sample_buffer_size = fill_mono_loop 0 sample_buffer_size 0 [] mps"

partial_function (option) fill_stereo_hard_loop ::
  "u32 \<Rightarrow> u32 \<Rightarrow> int \<Rightarrow> s16 list \<Rightarrow> mps_t \<Rightarrow> fill_result" where
  "fill_stereo_hard_loop i n done_flag samples mps =
     (if i < n then
        (let r = lmp_render_samples mps;
             csamp = fst r;
             samples1 = samples
               @ [word_of_int (host_to_LE16 (c_div (sint (csamp ! 0) + sint (csamp ! 3)) 2))];
             i1 = i + 1;
             samples2 = samples1
               @ [word_of_int (host_to_LE16 (c_div (sint (csamp ! 1) + sint (csamp ! 2)) 2))]
         in case lmp_check_for_tick (snd r) of
              Inl e \<Rightarrow> Some (Inl e)
            | Inr t \<Rightarrow> fill_stereo_hard_loop (i1 + 1) n (done_flag OR fst t) samples2 (snd t))
      else Some (Inr ((if done_flag = 0 then 1 else 0), samples, mps)))"

definition lmp_fill_buffer_stereo_hard :: "mps_t \<Rightarrow> u32 \<Rightarrow> fill_result" where
  "lmp_fill_buffer_stereo_hard mps sample_buffer_size =
     fill_stereo_hard_loop 0 sample_buffer_size 0 [] mps"

partial_function (option) fill_stereo_soft_loop ::
  "u32 \<Rightarrow> u32 \<Rightarrow> int \<Rightarrow> s16 list \<Rightarrow> mps_t \<Rightarrow> fill_result" where
  "fill_stereo_soft_loop i n done_flag samples mps =
     (if i < n then
        (let r = lmp_render_samples mps;
             csamp = fst r;
             samples1 = samples
               @ [word_of_int (host_to_LE16
                    (c_div (((sint (csamp ! 0) + sint (csamp ! 3)) * 3)
                              + (sint (csamp ! 1) + sint (csamp ! 2))) (4 * 2)))];
             i1 = i + 1;
             samples2 = samples1
               @ [word_of_int (host_to_LE16
                    (c_div (((sint (csamp ! 1) + sint (csamp ! 2)) * 3)
                              + (sint (csamp ! 0) + sint (csamp ! 3))) (4 * 2)))]
         in case lmp_check_for_tick (snd r) of
              Inl e \<Rightarrow> Some (Inl e)
            | Inr t \<Rightarrow> fill_stereo_soft_loop (i1 + 1) n (done_flag OR fst t) samples2 (snd t))
      else Some (Inr ((if done_flag = 0 then 1 else 0), samples, mps)))"

definition lmp_fill_buffer_stereo_soft :: "mps_t \<Rightarrow> u32 \<Rightarrow> fill_result" where
  "lmp_fill_buffer_stereo_soft mps sample_buffer_size =
     fill_stereo_soft_loop 0 sample_buffer_size 0 [] mps"

text \<open>
  \<^verbatim>\<open>lmp_mix_t\<close> and \<^verbatim>\<open>lmp_fill_buffer\<close>.  A C enumeration is an integer type and the
  function has a branch for the values that are none of the three enumerators, so the
  mix type is the integer.
\<close>

definition LMP_MONO :: int where
  "LMP_MONO = 0"

definition LMP_STEREO_SOFT :: int where
  "LMP_STEREO_SOFT = 1"

definition LMP_STEREO_HARD :: int where
  "LMP_STEREO_HARD = 2"

definition lmp_fill_buffer :: "mps_t \<Rightarrow> u32 \<Rightarrow> int \<Rightarrow> fill_result" where
  "lmp_fill_buffer mps sample_buffer_size mix_type =
     (if mix_type = LMP_MONO then lmp_fill_buffer_mono mps sample_buffer_size
      else if mix_type = LMP_STEREO_HARD then lmp_fill_buffer_stereo_hard mps sample_buffer_size
      else if mix_type = LMP_STEREO_SOFT then lmp_fill_buffer_stereo_soft mps sample_buffer_size
      else Some (Inr (- 1, [], mps)))"

section \<open>The loops as runs of frames\<close>

text \<open>
  One iteration of a buffer loop is a frame: the four channels are rendered, the mixer
  stores its one (mono) or two (stereo) samples, and the tick clock advances.  The three
  mixers are the expressions of the three loop bodies.
\<close>

definition mix_mono :: "s16 list \<Rightarrow> s16 list" where
  "mix_mono csamp =
     [word_of_int (host_to_LE16 (c_div (fold (\<lambda>chan sum. sum + sint (csamp ! chan)) [0..<4] 0) 4))]"

definition mix_stereo_hard :: "s16 list \<Rightarrow> s16 list" where
  "mix_stereo_hard csamp =
     [word_of_int (host_to_LE16 (c_div (sint (csamp ! 0) + sint (csamp ! 3)) 2)),
      word_of_int (host_to_LE16 (c_div (sint (csamp ! 1) + sint (csamp ! 2)) 2))]"

definition mix_stereo_soft :: "s16 list \<Rightarrow> s16 list" where
  "mix_stereo_soft csamp =
     [word_of_int (host_to_LE16
        (c_div (((sint (csamp ! 0) + sint (csamp ! 3)) * 3) + (sint (csamp ! 1) + sint (csamp ! 2))) (4 * 2))),
      word_of_int (host_to_LE16
        (c_div (((sint (csamp ! 1) + sint (csamp ! 2)) * 3) + (sint (csamp ! 0) + sint (csamp ! 3))) (4 * 2)))]"

definition frame :: "(s16 list \<Rightarrow> s16 list) \<Rightarrow> mps_t \<Rightarrow> lmp_fault + (int \<times> s16 list \<times> mps_t)" where
  "frame mix mps =
     (let r = lmp_render_samples mps
      in case lmp_check_for_tick (snd r) of
           Inl e \<Rightarrow> Inl e
         | Inr t \<Rightarrow> Inr (fst t, mix (fst r), snd t))"


text \<open>
  \<open>k\<close> frames in a row, with the \<^verbatim>\<open>done\<close> flag and the samples stored so far.  The
  loops above are shown below to compute exactly this whenever their counter does not
  wrap around.
\<close>

primrec run_frames ::
  "(s16 list \<Rightarrow> s16 list) \<Rightarrow> nat \<Rightarrow> int \<Rightarrow> s16 list \<Rightarrow> mps_t
     \<Rightarrow> lmp_fault + (int \<times> s16 list \<times> mps_t)" where
  "run_frames mix 0 done_flag samples mps = Inr ((if done_flag = 0 then 1 else 0), samples, mps)"
| "run_frames mix (Suc k) done_flag samples mps =
     (case frame mix mps of
        Inl e \<Rightarrow> Inl e
      | Inr t \<Rightarrow> run_frames mix k (done_flag OR fst t) (samples @ fst (snd t)) (snd (snd t)))"

text \<open>The samples per frame of a mix type, and its mixer.\<close>

definition frame_width :: "int \<Rightarrow> nat" where
  "frame_width mix_type = (if mix_type = LMP_MONO then 1 else 2)"

definition mixer :: "int \<Rightarrow> s16 list \<Rightarrow> s16 list" where
  "mixer mix_type =
     (if mix_type = LMP_MONO then mix_mono
      else if mix_type = LMP_STEREO_HARD then mix_stereo_hard else mix_stereo_soft)"

text \<open>No voice is active.\<close>

definition all_off :: "mps_t \<Rightarrow> bool" where
  "all_off mps = (\<forall>chan \<in> {0, 1, 2, 3}. c_on (cs mps chan) = 0)"

text \<open>The state that \<^verbatim>\<open>lmp_init\<close> leaves behind.\<close>

definition init_mps :: "mps_t \<Rightarrow> memory \<Rightarrow> mps_t" where
  "init_mps mps0 m = (case lmp_init mps0 m of Inl e \<Rightarrow> mps0 | Inr r \<Rightarrow> snd r)"

text \<open>The return value of a call, and a second call on the state the first one left.\<close>

definition fill_return :: "fill_result \<Rightarrow> (lmp_fault + int) option" where
  "fill_return r = map_option (map_sum id fst) r"

definition then_fill :: "fill_result \<Rightarrow> u32 \<Rightarrow> int \<Rightarrow> fill_result" where
  "then_fill r n mix_type =
     (case r of Some (Inr x) \<Rightarrow> lmp_fill_buffer (snd (snd x)) n mix_type | _ \<Rightarrow> r)"

section \<open>Concrete inputs\<close>

text \<open>A state of all zeros, as a zeroed \<^verbatim>\<open>mps_t\<close>.\<close>

definition zero_chan :: mpschan_t where
  "zero_chan = \<lparr>c_on = 0, c_vol = 0, c_inst = 0, c_looping = 0, c_pitch = 0, c_effect = 0,
     c_effect_param = 0, c_sample = 0, c_pos = 0, c_phaseinc = 0, c_len = 0,
     c_repeat_pos = 0, c_repeat_end = 0\<rparr>"

definition zero_samp :: mpsamp_t where
  "zero_samp = \<lparr>sample = 0, len = 0, repeat_pos = 0, repeat_len = 0, default_volume = 0\<rparr>"

definition zero_mps :: mps_t where
  "zero_mps = \<lparr>mod_data = (\<lambda>a. 0), instruments = 0, sequence = 0, length_m = 0, patterns = 0,
     inst = (\<lambda>i. zero_samp), pos = 0, pos_pattern = 0, speed = 0, tick_counter = 0, tempo = 0,
     thirtyone = 0, song_loop = 0, support_tempo = 0, stereo = 0, cs = (\<lambda>chan. zero_chan),
     sample_counter = 0, samples_per_tick = 0\<rparr>"

text \<open>
  A slice of 0x43c zero bytes: the header of a 15-instrument module and the first 0x1e4
  bytes of its pattern data, nothing behind.
\<close>

definition header_only :: "u8 list" where
  "header_only = replicate 0x43c 0"



text \<open>
  A state in the middle of a row (two ticks left) whose channel 0 plays period 113 with
  a portamento up of 255 armed: what the cell 00 71 01 FF leaves behind.
\<close>

definition porta_up_state :: mps_t where
  "porta_up_state = zero_mps\<lparr>tick_counter := 2,
     cs := (cs zero_mps)(0 := zero_chan\<lparr>c_pitch := 113, c_effect := 1, c_effect_param := 255\<rparr>)\<rparr>"

text \<open>
  A voice on a two-byte sample (\<open>c_len = 2 << 12\<close>) at position 1.5, and a memory whose
  byte at index 2, the first one past that sample, is 100.
\<close>

definition past_end_memory :: memory where
  "past_end_memory = (\<lambda>a. if a = 2 then 100 else 0)"

definition past_end_chan :: mpschan_t where
  "past_end_chan = zero_chan\<lparr>c_on := 1, c_vol := 64, c_pos := 0x1800, c_len := 0x2000\<rparr>"

text \<open>Projections of the result of a call: a function of the final state, and the samples.\<close>

definition fill_final :: "(mps_t \<Rightarrow> 'a) \<Rightarrow> fill_result \<Rightarrow> (lmp_fault + 'a) option" where
  "fill_final f r = map_option (map_sum id (\<lambda>x. f (snd (snd x)))) r"

definition fill_samples :: "fill_result \<Rightarrow> (lmp_fault + s16 list) option" where
  "fill_samples r = map_option (map_sum id (\<lambda>x. fst (snd x))) r"

text \<open>
  A 15-instrument module of one pattern and song length 1 whose instrument 1 has the
  volume byte 0x7F (offset 0x2D) and whose first cell plays period 428 with instrument 1
  (bytes 01 AC 10 00).
\<close>

definition module_VOL :: memory where
  "module_VOL = (\<lambda>a. if a = 0x2d then 0x7f else if a = 0x1d6 then 1
                     else if a = 0x258 then 0x01 else if a = 0x259 then 0xAC
                     else if a = 0x25a then 0x10 else 0)"

text \<open>
  A 15-instrument module of one pattern and song length 1 whose first cell plays period
  113 with portamento up 255 (bytes 00 71 01 FF), and what that cell leaves armed.
\<close>

definition module_PORTA :: memory where
  "module_PORTA = (\<lambda>a. if a = 0x1d6 then 1
                       else if a = 0x259 then 0x71 else if a = 0x25a then 0x01
                       else if a = 0x25b then 0xFF else 0)"

definition porta_armed :: "mps_t \<Rightarrow> bool" where
  "porta_armed mps =
     (c_pitch (cs mps 0) = 113 \<and> c_effect (cs mps 0) = 1 \<and> c_effect_param (cs mps 0) = 255
      \<and> c_effect (cs mps 1) = 0xff \<and> c_effect (cs mps 2) = 0xff \<and> c_effect (cs mps 3) = 0xff
      \<and> tick_counter mps = 6)"


text \<open>
  A 15-instrument module of one pattern and song length 1.  Instrument 1 is two bytes
  long (one halfword, no loop, volume 64) and is the only instrument with sample data,
  which lies at 0x658 and 0x659 and is zero; the module ends there.  The byte behind it,
  at 0x65A, is 100.  The first cell plays period 113 with instrument 1 (bytes 00 71 10
  00).  \<open>PAST_voice p\<close> is that voice at position \<open>p\<close>.
\<close>

definition module_PAST :: memory where
  "module_PAST = (\<lambda>a. if a = 0x2b then 1 else if a = 0x2d then 0x40 else if a = 0x31 then 1
                      else if a = 0x1d6 then 1
                      else if a = 0x259 then 0x71 else if a = 0x25a then 0x10
                      else if a = 0x65a then 100 else 0)"

definition PAST_voice :: "u32 \<Rightarrow> mpschan_t" where
  "PAST_voice p = \<lparr>c_on = 1, c_vol = 0x40, c_inst = 0, c_looping = 0, c_pitch = 113,
     c_effect = 0xff, c_effect_param = 0, c_sample = 0x658, c_pos = p, c_phaseinc = 2922,
     c_len = 0x2000, c_repeat_pos = 0, c_repeat_end = 0\<rparr>"

text \<open>Only channel 0 may be active: its state, the module and the sample counter.\<close>

definition voice0 :: "mps_t \<Rightarrow> mpschan_t \<Rightarrow> memory \<Rightarrow> u32 \<Rightarrow> bool" where
  "voice0 mps c m n =
     (cs mps 0 = c \<and> c_on (cs mps 1) = 0 \<and> c_on (cs mps 2) = 0 \<and> c_on (cs mps 3) = 0
      \<and> mod_data mps = m \<and> sample_counter mps = n)"

text \<open>
  The bounds of the volume claim: every channel volume, and every instrument's default
  volume, is at most 64.
\<close>

definition vol_bounded :: "mps_t \<Rightarrow> bool" where
  "vol_bounded mps = (\<forall>chan \<in> {0, 1, 2, 3}. c_vol (cs mps chan) \<le> 0x40)"

definition header_volumes_bounded :: "mps_t \<Rightarrow> bool" where
  "header_volumes_bounded mps = (\<forall>i < 31. default_volume (inst mps i) \<le> 0x40)"

definition volumes_ok :: "mps_t \<Rightarrow> bool" where
  "volumes_ok mps = (vol_bounded mps \<and> header_volumes_bounded mps)"



text \<open>A module of one pattern whose first row plays period 113 on channel 0 with a
  portamento up of 114 and sets speed 2 on channel 1, and whose second row gives channel 0 a
  portamento down of 1.  The predicates describe the player before each of the calls that
  follow the first one.\<close>

definition module_TRAP :: memory where
  "module_TRAP = (\<lambda>a. if a = 0x1d6 then 1
                      else if a = 0x259 then 0x71 else if a = 0x25a then 0x01
                      else if a = 0x25b then 0x72
                      else if a = 0x25e then 0x0f else if a = 0x25f then 0x02
                      else if a = 0x26a then 0x02 else if a = 0x26b then 0x01 else 0)"

definition TRAP_player :: "mps_t \<Rightarrow> bool" where
  "TRAP_player mps =
     (mod_data mps = module_TRAP \<and> sequence mps = 0x1d8 \<and> patterns mps = 0x258
      \<and> length_m mps = 1 \<and> pos mps = 0 \<and> pos_pattern mps = 1 \<and> speed mps = 2
      \<and> samples_per_tick mps = 882)"

definition TRAP_slide_up :: "mps_t \<Rightarrow> bool" where
  "TRAP_slide_up mps =
     (TRAP_player mps \<and> tick_counter mps = 2
      \<and> c_pitch (cs mps 0) = 113 \<and> c_effect (cs mps 0) = 1 \<and> c_effect_param (cs mps 0) = 114
      \<and> c_effect (cs mps 1) = 0xff \<and> c_effect (cs mps 2) = 0xff \<and> c_effect (cs mps 3) = 0xff)"

definition TRAP_wrapped :: "mps_t \<Rightarrow> bool" where
  "TRAP_wrapped mps =
     (TRAP_player mps \<and> tick_counter mps = 1 \<and> c_pitch (cs mps 0) = 0xffff)"

definition TRAP_slide_down :: "mps_t \<Rightarrow> bool" where
  "TRAP_slide_down mps =
     (tick_counter mps = 2
      \<and> c_pitch (cs mps 0) = 0xffff \<and> c_effect (cs mps 0) = 2 \<and> c_effect_param (cs mps 0) = 1)"

section \<open>Period to phase increment\<close>

lemma pi_quotient: "(2 ^ SAMP_FP_SPLIT * 254 * 14000) div LMP_SAMPLERATE = (330280::nat)"
  by (simp add: SAMP_FP_SPLIT_def LMP_SAMPLERATE_def)

lemma lmp_pi_from_pitch_nonzero:
  "p \<noteq> 0 \<Longrightarrow> lmp_pi_from_pitch p = Inr (of_nat (330280 div unat p))"
  unfolding lmp_pi_from_pitch_def pi_quotient by simp

text \<open>
  C4.  For every period in [113, 856], at the output rate 44100, the phase increment is
  the quotient (4096 * 254 * 14000) / (44100 * period) rounded as integer division
  rounds it: it is the integer quotient, which is the real quotient rounded down.
\<close>

theorem lmp_pi_from_pitch_integer_quotient:
  assumes "113 \<le> unat p" and "unat p \<le> 856"
  shows "\<exists>inc. lmp_pi_from_pitch p = Inr inc
            \<and> unat inc = (4096 * 254 * 14000) div (44100 * unat p)
            \<and> int (unat inc) = \<lfloor>(4096 * 254 * 14000) / (44100 * real (unat p))\<rfloor>"
proof -
  from assms have nz: "p \<noteq> 0"
    by auto
  let ?inc = "of_nat (330280 div unat p) :: u32"
  have split_div: "(4096 * 254 * 14000) div (44100 * unat p) = 330280 div unat p"
  proof -
    have "(14565376000::nat) div (44100 * unat p) = (14565376000 div 44100) div unat p"
      by (simp only: div_mult2_eq)
    also have "\<dots> = 330280 div unat p"
      by simp
    finally show ?thesis
      by simp
  qed
  have small: "330280 div unat p < (2::nat) ^ 32"
    by (rule le_less_trans [OF div_le_dividend]) simp
  have val: "unat ?inc = 330280 div unat p"
    using small by (simp add: unat_of_nat)
  have fl: "\<lfloor>(4096 * 254 * 14000) / (44100 * real (unat p))\<rfloor>
              = int ((4096 * 254 * 14000) div (44100 * unat p))"
  proof -
    have "\<lfloor>real (14565376000::nat) / real (44100 * unat p)\<rfloor>
            = int (14565376000 div (44100 * unat p))"
      by (rule floor_divide_of_nat_eq)
    then show ?thesis
      by simp
  qed
  have 1: "lmp_pi_from_pitch p = Inr ?inc"
    using nz by (rule lmp_pi_from_pitch_nonzero)
  have 2: "unat ?inc = (4096 * 254 * 14000) div (44100 * unat p)"
    by (simp only: val split_div)
  have 3: "int (unat ?inc) = \<lfloor>(4096 * 254 * 14000) / (44100 * real (unat p))\<rfloor>"
    by (simp only: 2 fl)
  from 1 2 3 show ?thesis
    by blast
qed

theorem lmp_pi_from_pitch_integer_quotient_witness:
  "113 \<le> unat (254 :: u16) \<and> unat (254 :: u16) \<le> 856
     \<and> (\<exists>inc. lmp_pi_from_pitch 254 = Inr inc \<and> unat inc = 1300)"
proof -
  have a: "113 \<le> unat (254 :: u16)" and b: "unat (254 :: u16) \<le> 856"
    by simp_all
  from lmp_pi_from_pitch_integer_quotient [OF a b] show ?thesis
    by auto
qed

text \<open>
  The rounding is the one of integer division, not rounding to the nearest integer: at
  period 113 the increment is 2922, while the nearest integer to the real quotient is
  2923.
\<close>

lemma pi_113: "lmp_pi_from_pitch 113 = Inr 2922"
  by (simp add: lmp_pi_from_pitch_nonzero)

lemma nearest_113: "round ((4096 * 254 * 14000) / (44100 * 113) :: real) = 2923"
  by (simp add: round_def)

section \<open>Loops, frames and ticks: supporting lemmas\<close>

lemma upt_4: "[0..<4] = [0, 1, 2, 3]"
  by (simp add: upt_rec)

lemma word_less_Suc: "i < n \<Longrightarrow> unat (i + 1) = Suc (unat i)" for i n :: u32
proof -
  assume "i < n"
  then have "unat i < unat n"
    by (simp add: word_less_nat_alt)
  moreover have "unat n < 2 ^ 32"
    using unsigned_less [of n] by simp
  ultimately have "unat i + 1 < 2 ^ 32"
    by linarith
  then show ?thesis
    by (simp add: unat_word_ariths)
qed

lemma fill_mono_loop_run:
  "unat i + k = unat n \<Longrightarrow> fill_mono_loop i n d out s = Some (run_frames mix_mono k d out s)"
proof (induction k arbitrary: i d out s)
  case 0
  then have "\<not> i < n" by (simp add: word_less_nat_alt)
  then show ?case
    by (subst fill_mono_loop.simps) simp
next
  case (Suc k)
  then have lt: "i < n" by (simp add: word_less_nat_alt)
  then have "unat (i + 1) + k = unat n"
    using Suc.prems by (simp add: word_less_Suc)
  then have IH: "\<And>d out s. fill_mono_loop (i + 1) n d out s = Some (run_frames mix_mono k d out s)"
    by (rule Suc.IH)
  show ?case
    by (subst fill_mono_loop.simps)
       (simp add: lt IH frame_def mix_mono_def Let_def split: sum.split)
qed

lemma word_less_Suc_Suc:
  "unat i + 2 \<le> unat n \<Longrightarrow> unat (i + 1 + 1) = unat i + 2" for i n :: u32
proof -
  assume "unat i + 2 \<le> unat n"
  moreover have "unat n < 2 ^ 32"
    using unsigned_less [of n] by simp
  ultimately have "unat i + 2 < 2 ^ 32"
    by linarith
  then show ?thesis
    by (simp add: unat_word_ariths)
qed

lemma fill_stereo_hard_loop_run:
  "unat i + 2 * k = unat n \<Longrightarrow>
     fill_stereo_hard_loop i n d out s = Some (run_frames mix_stereo_hard k d out s)"
proof (induction k arbitrary: i d out s)
  case 0
  then have "\<not> i < n" by (simp add: word_less_nat_alt)
  then show ?case
    by (subst fill_stereo_hard_loop.simps) simp
next
  case (Suc k)
  then have lt: "i < n" by (simp add: word_less_nat_alt)
  have "unat i + 2 \<le> unat n"
    using Suc.prems by simp
  then have "unat (i + 1 + 1) = unat i + 2"
    by (rule word_less_Suc_Suc)
  then have "unat (i + 1 + 1) + 2 * k = unat n"
    using Suc.prems by simp
  then have IH: "\<And>d out s.
      fill_stereo_hard_loop (i + 1 + 1) n d out s = Some (run_frames mix_stereo_hard k d out s)"
    by (rule Suc.IH)
  show ?case
    using IH by (subst fill_stereo_hard_loop.simps)
       (simp add: lt frame_def mix_stereo_hard_def Let_def split: sum.split)
qed

lemma set_chan_same: "set_chan mps chan (cs mps chan) = mps"
  by (simp add: set_chan_def)

lemma render_step_off:
  "c_on (cs mps chan) = 0 \<Longrightarrow> render_step (xs, mps) chan = (xs[chan := 0], mps)"
  by (simp add: render_step_def render_chan_def set_chan_same)

lemma lmp_render_samples_off:
  "all_off mps \<Longrightarrow> lmp_render_samples mps = ([0, 0, 0, 0], mps)"
  by (simp add: lmp_render_samples_def upt_4 all_off_def render_step_off numeral_eq_Suc)

lemma mix_mono_zero: "mix_mono [0, 0, 0, 0] = [0]"
  by (simp add: mix_mono_def upt_4 c_div_def host_to_LE16_def)



lemma lmp_check_for_tick_no_tick:
  "sample_counter mps \<noteq> 1 \<Longrightarrow>
     lmp_check_for_tick mps = Inr (0, mps\<lparr>sample_counter := sample_counter mps - 1\<rparr>)"
  by (simp add: lmp_check_for_tick_def Let_def)

lemma lmp_check_for_tick_tick:
  "sample_counter mps = 1 \<Longrightarrow>
     lmp_check_for_tick mps = lmp_tick (mps\<lparr>sample_counter := samples_per_tick mps\<rparr>)"
  by (simp add: lmp_check_for_tick_def Let_def)

lemma frame_off_no_tick:
  "all_off mps \<Longrightarrow> sample_counter mps \<noteq> 1 \<Longrightarrow>
     frame mix mps = Inr (0, mix [0, 0, 0, 0], mps\<lparr>sample_counter := sample_counter mps - 1\<rparr>)"
  by (simp add: frame_def lmp_render_samples_off lmp_check_for_tick_no_tick)

lemma all_off_sample_counter [simp]:
  "all_off (mps\<lparr>sample_counter := x\<rparr>) = all_off mps"
  by (simp add: all_off_def)


lemma samps_125: "lmp_samps_from_tempo 125 = Inr 882"
  by (simp add: lmp_samps_from_tempo_def LMP_SAMPLERATE_def)

lemma lmp_init_returns: "lmp_init mps0 m = Inr (0, init_mps mps0 m)"
  by (simp add: init_mps_def lmp_init_def Let_def samps_125)

lemma init_mps_fields:
  "sample_counter (init_mps mps0 m) = 882"
  "samples_per_tick (init_mps mps0 m) = 882"
  "tick_counter (init_mps mps0 m) = 0"
  "pos (init_mps mps0 m) = 0"
  "pos_pattern (init_mps mps0 m) = 0"
  "speed (init_mps mps0 m) = 6"
  "tempo (init_mps mps0 m) = 125"
  "song_loop (init_mps mps0 m) = 1"
  "support_tempo (init_mps mps0 m) = 1"
  "mod_data (init_mps mps0 m) = m"
  by (simp_all add: init_mps_def lmp_init_def Let_def samps_125 upt_4 init_chan_def)

lemma init_mps_chan:
  "chan \<in> {0, 1, 2, 3} \<Longrightarrow>
     cs (init_mps mps0 m) chan = (cs mps0 chan)\<lparr>c_on := 0, c_inst := 0, c_vol := 0x40, c_effect := 0xff\<rparr>"
  by (auto simp add: init_mps_def lmp_init_def Let_def samps_125 upt_4 init_chan_def)

lemma init_mps_all_off: "all_off (init_mps mps0 m)"
  by (simp add: all_off_def init_mps_chan)

lemma unat_ucast_8_32: "unat (ucast (v :: u8) :: u32) = unat v"
  by transfer (simp add: take_bit_nat_eq_self_iff nat_take_bit_eq min_def)

lemma ucast_8_32_eq_0: "(ucast (v :: u8) :: u32) = 0 \<longleftrightarrow> v = 0"
  by (metis unat_ucast_8_32 unat_eq_0)

lemma samps_from_val: "(0x20 :: u8) \<le> val \<Longrightarrow> \<exists>spt. lmp_samps_from_tempo (ucast val) = Inr spt"
proof -
  assume "(0x20 :: u8) \<le> val"
  then have "val \<noteq> 0" by auto
  then have "(ucast val :: u32) \<noteq> 0"
    by (simp add: ucast_8_32_eq_0)
  then show ?thesis
    by (simp add: lmp_samps_from_tempo_def)
qed





text \<open>Rendering touches the channels only.\<close>

lemma render_step_sample_counter:
  "sample_counter (snd (render_step st chan)) = sample_counter (snd st)"
  "samples_per_tick (snd (render_step st chan)) = samples_per_tick (snd st)"
  "pos (snd (render_step st chan)) = pos (snd st)"
  "length (fst (render_step st chan)) = length (fst st)"
  by (simp_all add: render_step_def set_chan_def Let_def)

lemma lmp_render_samples_keeps:
  "sample_counter (snd (lmp_render_samples mps)) = sample_counter mps"
  "samples_per_tick (snd (lmp_render_samples mps)) = samples_per_tick mps"
  "pos (snd (lmp_render_samples mps)) = pos mps"
  "length (fst (lmp_render_samples mps)) = 4"
  by (simp_all add: lmp_render_samples_def upt_4 render_step_sample_counter)

lemma frame_no_tick:
  "sample_counter mps \<noteq> 1 \<Longrightarrow>
     frame mix mps = Inr (0, mix (fst (lmp_render_samples mps)),
        (snd (lmp_render_samples mps))\<lparr>sample_counter := sample_counter mps - 1\<rparr>)"
  by (simp add: frame_def Let_def lmp_check_for_tick_no_tick lmp_render_samples_keeps)

lemma unat_minus_one_pos: "0 < unat w \<Longrightarrow> unat (w - 1) = unat w - 1" for w :: u32
  by (simp add: unat_minus_one unat_gt_0 [symmetric] del: unat_gt_0)


lemma for_each_keeps:
  assumes "\<And>s i s'. body s i = Inr s' \<Longrightarrow> f s' = f s"
  shows "for_each body xs s = Inr s' \<Longrightarrow> f s' = f s"
proof (induction xs arbitrary: s)
  case Nil
  then show ?case by simp
next
  case (Cons x xs)
  then obtain s1 where 1: "body s x = Inr s1" and 2: "for_each body xs s1 = Inr s'"
    by (auto split: sum.splits)
  from Cons.IH [OF 2] assms [OF 1] show ?case
    by simp
qed

lemma lmp_process_command_keeps:
  assumes "lmp_process_command mps chan command val = Inr mps'"
  shows "song_loop mps' = song_loop mps" and "sample_counter mps' = sample_counter mps"
    and "length_m mps' = length_m mps"
  using assms
  by (auto simp add: lmp_process_command_def set_chan_def Let_def split: if_splits sum.splits)

lemma tick_row_chan_keeps:
  assumes "tick_row_chan fr mps chan = Inr mps'"
  shows "song_loop mps' = song_loop mps" and "sample_counter mps' = sample_counter mps"
    and "length_m mps' = length_m mps"
  using assms
  by (auto simp add: tick_row_chan_def set_chan_def Let_def
        dest: lmp_process_command_keeps split: if_splits sum.splits)

lemma tick_effect_chan_keeps:
  assumes "tick_effect_chan mps chan = Inr mps'"
  shows "song_loop mps' = song_loop mps" and "sample_counter mps' = sample_counter mps"
    and "length_m mps' = length_m mps" and "pos mps' = pos mps"
  using assms
  by (auto simp add: tick_effect_chan_def set_chan_def Let_def split: if_splits sum.splits)

lemma lmp_tick_result:
  assumes "lmp_tick mps = Inr (d, mps')"
  shows "d = 0 \<or> d = 1"
    and "sample_counter mps' = sample_counter mps"
    and "d \<noteq> 0 \<Longrightarrow> song_loop mps = 0 \<and> \<not> 1 < tick_counter mps \<and> pos mps' = 0"
proof -
  show "d = 0 \<or> d = 1"
    using assms by (auto simp add: lmp_tick_def Let_def split: if_splits sum.splits)
  show "sample_counter mps' = sample_counter mps"
  proof (cases "1 < tick_counter mps")
    case True
    with assms obtain s1 where "for_each tick_effect_chan [0..<4] mps = Inr s1"
      and "mps' = s1\<lparr>tick_counter := tick_counter s1 - 1\<rparr>"
      by (auto simp add: lmp_tick_def split: sum.splits)
    then show ?thesis
      using for_each_keeps [of tick_effect_chan sample_counter, OF tick_effect_chan_keeps(2)]
      by auto
  next
    case False
    with assms obtain fr s3 where f: "for_each (tick_row_chan fr) [0..<4]
         (mps\<lparr>tick_counter := speed mps, pos_pattern := pos_pattern mps + 1\<rparr>) = Inr s3"
      and "sample_counter mps' = sample_counter s3"
      by (auto simp add: lmp_tick_def Let_def split: sum.splits if_splits)
    then show ?thesis
      using for_each_keeps [of "tick_row_chan fr" sample_counter, OF tick_row_chan_keeps(2), OF _ f]
      by auto
  qed
  show "song_loop mps = 0 \<and> \<not> 1 < tick_counter mps \<and> pos mps' = 0" if "d \<noteq> 0"
  proof (cases "1 < tick_counter mps")
    case True
    with assms that show ?thesis
      by (auto simp add: lmp_tick_def split: sum.splits)
  next
    case False
    with assms that obtain fr s3 where f: "for_each (tick_row_chan fr) [0..<4]
         (mps\<lparr>tick_counter := speed mps, pos_pattern := pos_pattern mps + 1\<rparr>) = Inr s3"
      and "song_loop s3 = 0" and "pos mps' = 0"
      by (auto simp add: lmp_tick_def Let_def split: sum.splits if_splits)
    then show ?thesis
      using False for_each_keeps [of "tick_row_chan fr" song_loop, OF tick_row_chan_keeps(1), OF _ f]
      by auto
  qed
qed

lemma run_frames_off_tick:
  "all_off mps \<Longrightarrow> unat (sample_counter mps) = Suc k \<Longrightarrow>
     run_frames mix (Suc k) d out mps
       = (case lmp_tick (mps\<lparr>sample_counter := samples_per_tick mps\<rparr>) of
            Inl e \<Rightarrow> Inl e
          | Inr t \<Rightarrow> Inr ((if (d OR fst t) = 0 then 1 else 0),
                          out @ concat (replicate (Suc k) (mix [0, 0, 0, 0])), snd t))"
proof (induction k arbitrary: out mps)
  case 0
  then have "sample_counter mps = 1"
    by (metis One_nat_def unat_1 word_unat_eq_iff)
  then show ?case
    using 0 by (simp add: frame_def lmp_render_samples_off lmp_check_for_tick_tick split: sum.split)
next
  case (Suc k)
  then have ne: "sample_counter mps \<noteq> 1"
    by auto
  let ?s = "mps\<lparr>sample_counter := sample_counter mps - 1\<rparr>"
  have u: "unat (sample_counter ?s) = Suc k"
    using Suc.prems by (simp add: unat_minus_one_pos)
  have off: "all_off ?s"
    using Suc.prems by simp
  have "run_frames mix (Suc (Suc k)) d out mps
          = run_frames mix (Suc k) d (out @ mix [0, 0, 0, 0]) ?s"
    by (simp add: frame_off_no_tick [OF Suc.prems(1) ne])
  also note Suc.IH [OF off u]
  finally show ?case
    by (simp split: sum.split)
qed



lemma fill_stereo_soft_loop_run:
  "unat i + 2 * k = unat n \<Longrightarrow>
     fill_stereo_soft_loop i n d out s = Some (run_frames mix_stereo_soft k d out s)"
proof (induction k arbitrary: i d out s)
  case 0
  then have "\<not> i < n" by (simp add: word_less_nat_alt)
  then show ?case
    by (subst fill_stereo_soft_loop.simps) simp
next
  case (Suc k)
  then have lt: "i < n" by (simp add: word_less_nat_alt)
  have "unat i + 2 \<le> unat n"
    using Suc.prems by simp
  then have "unat (i + 1 + 1) = unat i + 2"
    by (rule word_less_Suc_Suc)
  then have "unat (i + 1 + 1) + 2 * k = unat n"
    using Suc.prems by simp
  then have IH: "\<And>d out s.
      fill_stereo_soft_loop (i + 1 + 1) n d out s = Some (run_frames mix_stereo_soft k d out s)"
    by (rule Suc.IH)
  show ?case
    using IH by (subst fill_stereo_soft_loop.simps)
       (simp add: lt frame_def mix_stereo_soft_def Let_def split: sum.split)
qed

lemma lmp_fill_buffer_run:
  assumes "mix_type \<in> {LMP_MONO, LMP_STEREO_HARD, LMP_STEREO_SOFT}"
    and "unat n = frame_width mix_type * k"
  shows "lmp_fill_buffer mps n mix_type = Some (run_frames (mixer mix_type) k 0 [] mps)"
  using assms fill_mono_loop_run [of 0 k n 0 "[]" mps]
    fill_stereo_hard_loop_run [of 0 k n 0 "[]" mps]
    fill_stereo_soft_loop_run [of 0 k n 0 "[]" mps]
  by (auto simp add: lmp_fill_buffer_def mixer_def frame_width_def lmp_fill_buffer_mono_def
        lmp_fill_buffer_stereo_hard_def lmp_fill_buffer_stereo_soft_def
        LMP_MONO_def LMP_STEREO_HARD_def LMP_STEREO_SOFT_def)



lemma concat_replicate_zeros: "concat (replicate k (replicate w (0 :: s16))) = replicate (w * k) 0"
  by (induction k) (simp_all add: replicate_add [symmetric])

lemma init_mps_layout:
  "thirtyone (init_mps mps0 m) = (if strncmp_MK m 0x438 then 1 else 0)"
  "sequence (init_mps mps0 m) = (if strncmp_MK m 0x438 then 0x3b8 else 0x1d8)"
  "patterns (init_mps mps0 m) = (if strncmp_MK m 0x438 then 0x43c else 0x258)"
  "length_m (init_mps mps0 m) = (if strncmp_MK m 0x438 then m 0x3b6 else m 0x1d6)"
  by (simp_all add: init_mps_def lmp_init_def Let_def samps_125 upt_4 init_chan_def)





lemma decode_B00:
  "note_val 0x000b0000 = 0" "note_inst 0x000b0000 = 0" "note_freq 0x000b0000 = 0"
  "note_command 0x000b0000 = 11"
  "note_val 0 = 0" "note_inst 0 = 0" "note_freq 0 = 0" "note_command 0 = 0"
  by (simp_all add: note_val_def note_inst_def note_freq_def note_command_def)

lemma tick_row_chan_empty:
  "load32 (mod_data mps) (fr + 4 * chan) = 0 \<Longrightarrow>
     tick_row_chan fr mps chan = Inr (set_chan mps chan ((cs mps chan)\<lparr>c_effect := 0xff\<rparr>))"
  by (simp add: tick_row_chan_def host_to_LE32_def decode_B00 lmp_process_command_def)


lemma set_chan_fields:
  "mod_data (set_chan mps chan c) = mod_data mps"
  "pos (set_chan mps chan c) = pos mps"
  "pos_pattern (set_chan mps chan c) = pos_pattern mps"
  "song_loop (set_chan mps chan c) = song_loop mps"
  "length_m (set_chan mps chan c) = length_m mps"
  "thirtyone (set_chan mps chan c) = thirtyone mps"
  "sample_counter (set_chan mps chan c) = sample_counter mps"
  "samples_per_tick (set_chan mps chan c) = samples_per_tick mps"
  "tick_counter (set_chan mps chan c) = tick_counter mps"
  "speed (set_chan mps chan c) = speed mps"
  "inst (set_chan mps chan c) = inst mps"
  "cs (set_chan mps chan c) = (cs mps)(chan := c)"
  by (simp_all add: set_chan_def)


lemma sample_counter_same: "sample_counter mps = x \<Longrightarrow> mps\<lparr>sample_counter := x\<rparr> = mps"
  by auto



section \<open>The end of a song: the tick that sets the flag\<close>












section \<open>The first tick\<close>




section \<open>Note cells\<close>

text \<open>
  C8 (as the code has it).  For every cell, with \<open>b0\<close> the byte at the cell's offset and
  \<open>b2\<close> the byte two further, the decoded instrument number is
  \<open>(b0 & 0x10) | (b2 >> 4)\<close>: of \<open>b0\<close> only bit 4 is used, as the code's own comment
  (\<^verbatim>\<open>Instrument = b0[4],b2[7:4]\<close>) says.
\<close>

theorem note_inst_bytes:
  "note_inst (host_to_LE32 (load32 m a)) = (m a AND 0x10) OR drop_bit 4 (m (a + 2))"
  unfolding note_inst_def host_to_LE32_def load32_def
proof (rule bit_word_eqI)
  fix n
  assume "n < LENGTH(8)"
  then have "n \<in> {0, 1, 2, 3, 4, 5, 6, 7}"
    by auto
  then show "bit (ucast (drop_bit 20 (ucast (m a) OR push_bit 8 (ucast (m (a + 1)))
                  OR push_bit 16 (ucast (m (a + 2))) OR push_bit 24 (ucast (m (a + 3))) :: u32) AND 0xf
               OR (ucast (m a) OR push_bit 8 (ucast (m (a + 1)))
                  OR push_bit 16 (ucast (m (a + 2))) OR push_bit 24 (ucast (m (a + 3)))) AND 0x10) :: u8) n
           = bit ((m a AND 0x10) OR drop_bit 4 (m (a + 2))) n"
    by (elim insertE emptyE) (auto simp add: bit_simps dest: bit_imp_le_length)
qed

text \<open>
  C8 as stated fails at \<open>b0 = 0x20\<close>, \<open>b2 = 0\<close>: the code decodes instrument 0, the
  claim's \<open>(b0 & 0xF0) | (b2 >> 4)\<close> is 0x20.
\<close>

theorem note_inst_upper_nibble_counterexample:
  "note_inst (host_to_LE32 (load32 (\<lambda>a. if a = 0 then 0x20 else 0) 0))
     \<noteq> ((0x20 :: u8) AND 0xF0) OR drop_bit 4 0"
  by (simp add: note_inst_def host_to_LE32_def load32_def)

section \<open>Playing a module: the first row and what follows\<close>

lemma init_first_call:
  assumes "lmp_tick (init_mps mps0 m) = Inr (d, s1)"
  shows "lmp_fill_buffer (init_mps mps0 m) 882 LMP_MONO
           = Some (Inr ((if d = 0 then 1 else 0), replicate 882 0, s1))"
proof -
  let ?s = "init_mps mps0 m"
  have modes: "LMP_MONO \<in> {LMP_MONO, LMP_STEREO_HARD, LMP_STEREO_SOFT}"
    by simp
  have u: "unat (sample_counter ?s) = Suc 881"
    by (simp add: init_mps_fields)
  have same: "?s\<lparr>sample_counter := samples_per_tick ?s\<rparr> = ?s"
    by (rule sample_counter_same) (simp add: init_mps_fields)
  have zeros: "concat (replicate (Suc 881) (mix_mono [0, 0, 0, 0])) = replicate 882 0"
    using concat_replicate_zeros [of "Suc 881" 1] by (simp add: mix_mono_zero)
  from run_frames_off_tick [OF init_mps_all_off u, of mix_mono 0 "[]"]
  have "run_frames mix_mono (Suc 881) 0 [] ?s
          = Inr ((if d = 0 then 1 else 0), replicate 882 0, s1)"
    using zeros by (simp add: same assms)
  then show ?thesis
    using lmp_fill_buffer_run [OF modes, of 882 882 ?s]
    by (simp add: frame_width_def mixer_def)
qed

lemma set_chan_twice: "set_chan (set_chan mps chan a) chan b = set_chan mps chan b"
  by (simp add: set_chan_def)

lemma tick_row_chan_note:
  assumes "load32 (mod_data mps) (fr + 4 * chan) = note"
    and "note_command note = 0" and "note_freq note \<noteq> 0" and "note_inst note \<noteq> 0"
    and "note_inst note \<le> (if thirtyone mps \<noteq> 0 then 31 else 15)"
  shows "\<exists>s'. tick_row_chan fr mps chan = Inr s'
           \<and> c_vol (cs s' chan) = default_volume (inst mps (unat (note_inst note - 1)))
           \<and> mod_data s' = mod_data mps \<and> pos s' = pos mps \<and> pos_pattern s' = pos_pattern mps
           \<and> length_m s' = length_m mps \<and> song_loop s' = song_loop mps"
  using assms
  by (simp add: tick_row_chan_def host_to_LE32_def Let_def set_chan_fields
        lmp_pi_from_pitch_nonzero lmp_process_command_def)

lemma tick_row_chan_note_state:
  assumes "load32 (mod_data mps) (fr + 4 * chan) = note"
    and "note_command note = 0" and "note_freq note \<noteq> 0" and "note_inst note \<noteq> 0"
    and "note_inst note \<le> (if thirtyone mps \<noteq> 0 then 31 else 15)"
    and "repeat_len (inst mps (unat (note_inst note - 1))) = 2"
  shows "tick_row_chan fr mps chan
           = Inr (set_chan mps chan ((cs mps chan)
               \<lparr>c_effect := 0xff, c_on := 1, c_inst := note_inst note - 1,
                 c_vol := default_volume (inst mps (unat (note_inst note - 1))),
                 c_sample := sample (inst mps (unat (note_inst note - 1))), c_pos := 0,
                 c_len := push_bit 12 (ucast (len (inst mps (unat (note_inst note - 1))))),
                 c_looping := 0,
                 c_phaseinc := of_nat (330280 div unat (note_freq note)),
                 c_pitch := note_freq note\<rparr>))"
  using assms
  by (simp add: tick_row_chan_def host_to_LE32_def Let_def set_chan_fields SAMP_FP_SPLIT_def
        lmp_pi_from_pitch_nonzero lmp_process_command_def set_chan_twice)

lemma tick_row_chan_empty_fields:
  assumes "load32 (mod_data mps) (fr + 4 * chan) = 0"
  shows "\<exists>s'. tick_row_chan fr mps chan = Inr s'
           \<and> (\<forall>c. c \<noteq> chan \<longrightarrow> cs s' c = cs mps c)
           \<and> mod_data s' = mod_data mps \<and> pos s' = pos mps \<and> pos_pattern s' = pos_pattern mps
           \<and> length_m s' = length_m mps \<and> song_loop s' = song_loop mps"
  using assms by (simp add: tick_row_chan_empty set_chan_fields)

lemma lmp_tick_row_state:
  assumes "\<not> 1 < tick_counter mps"
    and "for_each (tick_row_chan (patterns mps + 4 * unat (256 * ucast (mod_data mps
            (sequence mps + unat (pos mps))) + 4 * pos_pattern mps :: u32))) [0..<4]
          (mps\<lparr>tick_counter := speed mps, pos_pattern := pos_pattern mps + 1\<rparr>) = Inr s4"
  shows "\<exists>d s'. lmp_tick mps = Inr (d, s') \<and> cs s' = cs s4
           \<and> tick_counter s' = tick_counter s4 \<and> mod_data s' = mod_data s4"
  using assms by (simp add: lmp_tick_def Let_def)

lemma init_instrument_other:
  "i \<noteq> j \<Longrightarrow> snd (init_instrument m b j st) i = snd st i"
  by (simp add: init_instrument_def Let_def)

lemma init_instrument_this:
  "default_volume (snd (init_instrument m b j st) j)
     = ucast (0x7f AND BE_to_host16 (load16 m (b + j * 30 + 2 * (10 + 2))))"
  "len (snd (init_instrument m b j st) j) = BE_to_host16 (load16 m (b + j * 30 + 2 * (10 + 1))) * 2"
  "repeat_len (snd (init_instrument m b j st) j)
     = BE_to_host16 (load16 m (b + j * 30 + 2 * (10 + 4))) * 2"
  by (simp_all add: init_instrument_def Let_def)

lemma init_instrument_fold:
  "i < n \<Longrightarrow>
     default_volume (snd (fold (init_instrument m b) [0..<n] st) i)
       = ucast (0x7f AND BE_to_host16 (load16 m (b + i * 30 + 2 * (10 + 2))))
   \<and> len (snd (fold (init_instrument m b) [0..<n] st) i)
       = BE_to_host16 (load16 m (b + i * 30 + 2 * (10 + 1))) * 2
   \<and> repeat_len (snd (fold (init_instrument m b) [0..<n] st) i)
       = BE_to_host16 (load16 m (b + i * 30 + 2 * (10 + 4))) * 2"
proof (induction n)
  case 0
  then show ?case by simp
next
  case (Suc n)
  show ?case
  proof (cases "i = n")
    case True
    then show ?thesis
      by (simp add: init_instrument_this)
  next
    case False
    with Suc show ?thesis
      by (simp add: init_instrument_other)
  qed
qed

lemma init_mps_inst:
  "inst (init_mps mps0 m)
     = snd (fold (init_instrument m 0x14) [0..<(if strncmp_MK m 0x438 then 31 else 15)]
              (patterns (init_mps mps0 m)
                 + 4 * (256 * (scan_max_patt m (sequence (init_mps mps0 m)) + 1)), inst mps0))"
  by (simp add: init_mps_def lmp_init_def Let_def samps_125 upt_4 init_chan_def)

lemma init_mps_default_volume:
  "i < 15 \<Longrightarrow> default_volume (inst (init_mps mps0 m) i)
     = ucast (0x7f AND BE_to_host16 (load16 m (0x14 + i * 30 + 2 * (10 + 2))))"
  by (simp add: init_mps_inst init_instrument_fold)

lemma init_mps_instrument:
  "i < 15 \<Longrightarrow> len (inst (init_mps mps0 m) i)
     = BE_to_host16 (load16 m (0x14 + i * 30 + 2 * (10 + 1))) * 2"
  "i < 15 \<Longrightarrow> repeat_len (inst (init_mps mps0 m) i)
     = BE_to_host16 (load16 m (0x14 + i * 30 + 2 * (10 + 4))) * 2"
  by (simp_all add: init_mps_inst init_instrument_fold)

lemma scan_max_patt_fold_zero:
  "(\<And>i. i < n \<Longrightarrow> m (seq + i) = 0) \<Longrightarrow>
     fold (\<lambda>i max_patt. if unat (m (seq + i)) > max_patt then unat (m (seq + i)) else max_patt)
       [0..<n] 0 = 0"
  by (induction n) simp_all

lemma scan_max_patt_zero:
  "(\<And>i. i < 128 \<Longrightarrow> m (seq + i) = 0) \<Longrightarrow> scan_max_patt m seq = 0"
  unfolding scan_max_patt_def by (rule scan_max_patt_fold_zero)

lemma init_instrument_first_sample:
  "0 < n \<Longrightarrow> sample (snd (fold (init_instrument m b) [0..<n] st) 0) = fst st"
proof (induction n)
  case 0
  then show ?case by simp
next
  case (Suc n)
  show ?case
  proof (cases "n = 0")
    case True
    then show ?thesis
      by (simp add: init_instrument_def Let_def)
  next
    case False
    with Suc show ?thesis
      by (simp add: init_instrument_other)
  qed
qed

lemma init_mps_first_sample:
  "sample (inst (init_mps mps0 m) 0)
     = patterns (init_mps mps0 m) + 4 * (256 * (scan_max_patt m (sequence (init_mps mps0 m)) + 1))"
  by (simp add: init_mps_inst init_instrument_first_sample)

lemma init_zero_chan:
  "chan \<in> {0, 1, 2, 3} \<Longrightarrow> cs (init_mps zero_mps m) chan
     = \<lparr>c_on = 0, c_vol = 0x40, c_inst = 0, c_looping = 0, c_pitch = 0,
        c_effect = 0xff, c_effect_param = 0, c_sample = 0, c_pos = 0, c_phaseinc = 0,
        c_len = 0, c_repeat_pos = 0, c_repeat_end = 0\<rparr>"
  by (simp add: init_mps_chan) (simp add: zero_mps_def zero_chan_def)

lemma render_chan_keeps:
  "c_pitch (snd (render_chan m c)) = c_pitch c"
  "c_effect (snd (render_chan m c)) = c_effect c"
  "c_effect_param (snd (render_chan m c)) = c_effect_param c"
  by (simp_all add: render_chan_def Let_def)

lemma render_step_keeps:
  "c_pitch (cs (snd (render_step st chan)) c) = c_pitch (cs (snd st) c)"
  "c_effect (cs (snd (render_step st chan)) c) = c_effect (cs (snd st) c)"
  "c_effect_param (cs (snd (render_step st chan)) c) = c_effect_param (cs (snd st) c)"
  "tick_counter (snd (render_step st chan)) = tick_counter (snd st)"
  by (simp_all add: render_step_def Let_def set_chan_fields render_chan_keeps)

lemma lmp_render_samples_slide:
  "c_pitch (cs (snd (lmp_render_samples mps)) c) = c_pitch (cs mps c)"
  "c_effect (cs (snd (lmp_render_samples mps)) c) = c_effect (cs mps c)"
  "c_effect_param (cs (snd (lmp_render_samples mps)) c) = c_effect_param (cs mps c)"
  "tick_counter (snd (lmp_render_samples mps)) = tick_counter mps"
  by (simp_all add: lmp_render_samples_def upt_4 render_step_keeps)

lemma run_frames_until_tick:
  assumes inv: "\<And>s. P s \<Longrightarrow> P (snd (lmp_render_samples s))"
    and upd: "\<And>s x. P s \<Longrightarrow> P (s\<lparr>sample_counter := x\<rparr>)"
    and tick: "\<And>s. P s \<Longrightarrow> \<exists>s'. lmp_tick s = Inr (0, s') \<and> Q s'"
  shows "P mps \<Longrightarrow> unat (sample_counter mps) = Suc k \<Longrightarrow>
     \<exists>out' s'. run_frames mix (Suc k) d out mps = Inr ((if d = 0 then 1 else 0), out', s') \<and> Q s'"
proof (induction k arbitrary: out mps)
  case 0
  then have one: "sample_counter mps = 1"
    by (metis One_nat_def unat_1 word_unat_eq_iff)
  let ?t = "(snd (lmp_render_samples mps))\<lparr>sample_counter := samples_per_tick (snd (lmp_render_samples mps))\<rparr>"
  have "P ?t"
    using 0(1) inv upd by blast
  then obtain s' where "lmp_tick ?t = Inr (0, s')" and "Q s'"
    using tick by blast
  then show ?case
    using one by (simp add: frame_def Let_def lmp_check_for_tick_tick lmp_render_samples_keeps)
next
  case (Suc k)
  then have ne: "sample_counter mps \<noteq> 1"
    by auto
  let ?t = "(snd (lmp_render_samples mps))\<lparr>sample_counter := sample_counter mps - 1\<rparr>"
  have p: "P ?t"
    using Suc.prems(1) inv upd by blast
  have u: "unat (sample_counter ?t) = Suc k"
    using Suc.prems(2) by (simp add: unat_minus_one_pos)
  from Suc.IH [OF p u, of "out @ mix (fst (lmp_render_samples mps))"]
  show ?case
    by (simp add: frame_no_tick [OF ne])
qed

lemma render_voice0:
  assumes "c_on (cs mps 1) = 0" and "c_on (cs mps 2) = 0" and "c_on (cs mps 3) = 0"
  shows "lmp_render_samples mps
           = ([word_of_int (fst (render_chan (mod_data mps) (cs mps 0))), 0, 0, 0],
              set_chan mps 0 (snd (render_chan (mod_data mps) (cs mps 0))))"
proof -
  let ?a = "set_chan mps 0 (snd (render_chan (mod_data mps) (cs mps 0)))"
  let ?x = "[word_of_int (fst (render_chan (mod_data mps) (cs mps 0))), 0, 0, 0] :: s16 list"
  have 0: "render_step ([0, 0, 0, 0], mps) 0 = (?x, ?a)"
    by (simp add: render_step_def Let_def)
  have "c_on (cs ?a (Suc 0)) = 0"
    using assms(1) by (simp add: set_chan_fields)
  then have 1: "render_step (?x, ?a) (Suc 0) = (?x, ?a)"
    by (simp add: render_step_off)
  have "c_on (cs ?a 2) = 0"
    using assms(2) by (simp add: set_chan_fields)
  then have 2: "render_step (?x, ?a) 2 = (?x, ?a)"
    by (simp add: render_step_off numeral_eq_Suc)
  have "c_on (cs ?a 3) = 0"
    using assms(3) by (simp add: set_chan_fields)
  then have 3: "render_step (?x, ?a) 3 = (?x, ?a)"
    by (simp add: render_step_off numeral_eq_Suc)
  have "lmp_render_samples mps
          = render_step (render_step (render_step (render_step ([0, 0, 0, 0], mps) 0) (Suc 0)) 2) 3"
    by (simp add: lmp_render_samples_def upt_4 numeral_eq_Suc)
  then show ?thesis
    by (simp only: 0 1 2 3)
qed

lemma frame_voice0:
  assumes "voice0 mps c m n" and "n \<noteq> 1" and "render_chan m c = (v, c')"
  shows "\<exists>mps'. frame mix_mono mps
            = Inr (0, [word_of_int (c_div (sint (word_of_int v :: s16)) 4)], mps')
          \<and> voice0 mps' c' m (n - 1)"
  using assms
  by (simp add: voice0_def frame_no_tick render_voice0 set_chan_fields mix_mono_def upt_4
        host_to_LE16_def)

section \<open>Loading a module\<close>

lemma peek_value: "peek bytes a = Inr b \<Longrightarrow> b = slice_memory bytes behind a"
  by (simp add: peek_def slice_memory_def split: if_splits)

lemma peek_fault: "peek bytes a = Inl e \<Longrightarrow> e = ReadPastEnd a \<and> length bytes \<le> a"
  by (simp add: peek_def split: if_splits)

lemma peek_past_end: "length bytes \<le> a \<Longrightarrow> peek bytes a = Inl (ReadPastEnd a)"
  by (simp add: peek_def)

lemma peek16_value: "peek16 bytes a = Inr w \<Longrightarrow> w = load16 (slice_memory bytes behind) a"
  by (auto simp add: peek16_def load16_def peek_def slice_memory_def split: sum.splits if_splits)

lemma peek16_fault:
  "peek16 bytes a = Inl e \<Longrightarrow> \<exists>x. e = ReadPastEnd x \<and> length bytes \<le> x \<and> x \<le> a + 1"
  by (auto simp add: peek16_def peek_def split: sum.splits if_splits)

lemma strncmp_checked_value:
  "strncmp_checked magic_MK bytes a = Inr mk \<Longrightarrow> mk = strncmp_MK (slice_memory bytes behind) a"
  by (auto simp add: magic_MK_def strncmp_MK_def upt_4 peek_def slice_memory_def numeral_3_eq_3
        split: sum.splits if_splits)

lemma strncmp_checked_fault:
  "strncmp_checked magic_MK bytes a = Inl e \<Longrightarrow>
     \<exists>x. e = ReadPastEnd x \<and> length bytes \<le> x \<and> x < a + 4"
  by (auto simp add: magic_MK_def peek_def split: sum.splits if_splits)

lemma strncmp_checked_past_end:
  "length bytes \<le> a \<Longrightarrow> strncmp_checked magic_MK bytes a = Inl (ReadPastEnd a)"
  by (simp add: magic_MK_def peek_past_end)

lemma for_each_value:
  assumes "\<And>s i s'. body s i = Inr s' \<Longrightarrow> s' = f i s"
  shows "for_each body xs s = Inr s' \<Longrightarrow> s' = fold f xs s"
proof (induction xs arbitrary: s)
  case Nil
  then show ?case by simp
next
  case (Cons x xs)
  then obtain s1 where 1: "body s x = Inr s1" and 2: "for_each body xs s1 = Inr s'"
    by (auto split: sum.splits)
  from assms [OF 1] Cons.IH [OF 2] show ?case
    by simp
qed

lemma for_each_fault:
  "for_each body xs s = Inl e \<Longrightarrow> \<exists>s1 i. i \<in> set xs \<and> body s1 i = Inl e"
proof (induction xs arbitrary: s)
  case Nil
  then show ?case by simp
next
  case (Cons x xs)
  show ?case
  proof (cases "body s x")
    case (Inl a)
    then show ?thesis
      using Cons.prems by auto
  next
    case (Inr s1)
    then have "for_each body xs s1 = Inl e"
      using Cons.prems by simp
    from Cons.IH [OF this] show ?thesis
      by auto
  qed
qed

lemma scan_step_checked_value:
  "scan_step_checked bytes seq max_patt i = Inr v \<Longrightarrow>
     v = (if unat (slice_memory bytes behind (seq + i)) > max_patt
          then unat (slice_memory bytes behind (seq + i)) else max_patt)"
  by (auto simp add: scan_step_checked_def peek_def slice_memory_def split: sum.splits if_splits)

lemma scan_checked_value:
  "for_each (scan_step_checked bytes seq) [0..<128] 0 = Inr v \<Longrightarrow>
     v = scan_max_patt (slice_memory bytes behind) seq"
  unfolding scan_max_patt_def
  by (rule for_each_value [where body = "scan_step_checked bytes seq"])
     (auto dest: scan_step_checked_value [where behind = behind])

lemma scan_checked_fault:
  "for_each (scan_step_checked bytes seq) [0..<128] 0 = Inl e \<Longrightarrow>
     \<exists>x. e = ReadPastEnd x \<and> length bytes \<le> x \<and> x < seq + 128"
proof -
  assume "for_each (scan_step_checked bytes seq) [0..<128] 0 = Inl e"
  from for_each_fault [OF this] obtain s1 i where "i < 128"
    and "scan_step_checked bytes seq s1 i = Inl e"
    by auto
  then show ?thesis
    by (auto simp add: scan_step_checked_def peek_def split: sum.splits if_splits)
qed

lemma init_instrument_checked_value:
  "init_instrument_checked bytes instrs st i = Inr v \<Longrightarrow>
     v = init_instrument (slice_memory bytes behind) instrs i st"
proof -
  assume a: "init_instrument_checked bytes instrs st i = Inr v"
  let ?m = "slice_memory bytes behind"
  let ?instr = "instrs + i * 30"
  from a obtain h_len h_vol h_pos h_rep where
    r: "peek16 bytes (?instr + 2 * (10 + 1)) = Inr h_len"
       "peek16 bytes (?instr + 2 * (10 + 2)) = Inr h_vol"
       "peek16 bytes (?instr + 2 * (10 + 3)) = Inr h_pos"
       "peek16 bytes (?instr + 2 * (10 + 4)) = Inr h_rep"
    by (simp add: init_instrument_checked_def Let_def split: sum.splits)
  have h: "h_len = load16 ?m (?instr + 2 * (10 + 1))" "h_vol = load16 ?m (?instr + 2 * (10 + 2))"
    "h_pos = load16 ?m (?instr + 2 * (10 + 3))" "h_rep = load16 ?m (?instr + 2 * (10 + 4))"
    using r by (simp_all only: peek16_value [where behind = behind])
  show ?thesis
    using a unfolding init_instrument_checked_def init_instrument_def Let_def r h [symmetric]
    by simp
qed

lemma instruments_checked_value:
  "for_each (init_instrument_checked bytes instrs) [0..<n] st = Inr v \<Longrightarrow>
     v = fold (init_instrument (slice_memory bytes behind) instrs) [0..<n] st"
  by (rule for_each_value [where body = "init_instrument_checked bytes instrs"])
     (auto dest: init_instrument_checked_value [where behind = behind])

lemma init_instrument_checked_fault:
  "init_instrument_checked bytes instrs st i = Inl e \<Longrightarrow>
     \<exists>x. e = ReadPastEnd x \<and> length bytes \<le> x \<and> x < instrs + i * 30 + 30"
proof -
  assume a: "init_instrument_checked bytes instrs st i = Inl e"
  let ?instr = "instrs + i * 30"
  from a have "peek16 bytes (?instr + 2 * (10 + 1)) = Inl e \<or> peek16 bytes (?instr + 2 * (10 + 2)) = Inl e
      \<or> peek16 bytes (?instr + 2 * (10 + 3)) = Inl e \<or> peek16 bytes (?instr + 2 * (10 + 4)) = Inl e"
    by (simp add: init_instrument_checked_def Let_def split: sum.splits)
  then show ?thesis
    by (elim disjE) (drule peek16_fault, fastforce)+
qed

lemma instruments_checked_fault:
  assumes "for_each (init_instrument_checked bytes instrs) [0..<n] st = Inl e"
  shows "\<exists>x. e = ReadPastEnd x \<and> length bytes \<le> x \<and> x < instrs + n * 30"
proof -
  from for_each_fault [OF assms] obtain s1 i where i: "i < n"
    and "init_instrument_checked bytes instrs s1 i = Inl e"
    by auto
  from init_instrument_checked_fault [OF this(2)] obtain x
    where x: "e = ReadPastEnd x" "length bytes \<le> x" "x < instrs + i * 30 + 30"
    by blast
  have "i * 30 + 30 \<le> n * 30"
    using i by simp
  with x show ?thesis
    by auto
qed

lemma lmp_init_checked_fault:
  assumes "lmp_init_checked mps0 bytes behind = Inl e"
  shows "\<exists>x. e = ReadPastEnd x \<and> length bytes \<le> x \<and> x < 0x43c"
proof (cases "strncmp_checked magic_MK bytes 0x438")
  case (Inl a)
  then have "a = e"
    using assms by (simp add: lmp_init_checked_def Let_def)
  with Inl strncmp_checked_fault [of bytes "0x438" e] show ?thesis
    by auto
next
  case mk: (Inr mk)
  let ?len_at = "if mk then 0x3b6 else 0x1d6 :: nat"
  let ?seq = "if mk then 0x3b8 else 0x1d8 :: nat"
  let ?n = "if mk then 31 else 15 :: nat"
  show ?thesis
  proof (cases "peek bytes ?len_at")
    case (Inl a)
    then have "a = e"
      using assms mk by (simp add: lmp_init_checked_def Let_def split: if_splits)
    with Inl peek_fault [of bytes ?len_at e] show ?thesis
      by (auto split: if_splits)
  next
    case sl: (Inr sl)
    show ?thesis
    proof (cases "for_each (scan_step_checked bytes ?seq) [0..<128] 0")
      case (Inl a)
      then have "a = e"
        using assms mk sl by (simp add: lmp_init_checked_def Let_def split: if_splits)
      with Inl scan_checked_fault [of bytes ?seq e] show ?thesis
        by (auto split: if_splits)
    next
      case mp: (Inr mp)
      obtain st :: "nat \<times> (nat \<Rightarrow> mpsamp_t)" where
        f: "for_each (init_instrument_checked bytes 0x14) [0..<?n] st = Inl e"
        using assms mk sl mp
        by (auto simp add: lmp_init_checked_def Let_def samps_125 split: if_splits sum.splits)
      from instruments_checked_fault [OF f] show ?thesis
        by (auto split: if_splits)
    qed
  qed
qed

lemma lmp_init_checked_value:
  assumes "lmp_init_checked mps0 bytes behind = Inr x"
  shows "lmp_init mps0 (slice_memory bytes behind) = Inr x"
proof -
  let ?m = "slice_memory bytes behind"
  obtain mk where mk: "strncmp_checked magic_MK bytes 0x438 = Inr mk"
    using assms by (cases "strncmp_checked magic_MK bytes 0x438")
      (simp_all add: lmp_init_checked_def Let_def)
  have mk_eq: "mk = strncmp_MK ?m 0x438"
    using mk by (rule strncmp_checked_value)
  let ?len_at = "if mk then 0x3b6 else 0x1d6 :: nat"
  let ?seq = "if mk then 0x3b8 else 0x1d8 :: nat"
  let ?n = "if mk then 31 else 15 :: nat"
  obtain sl where sl: "peek bytes ?len_at = Inr sl"
    using assms mk by (cases "peek bytes ?len_at")
      (simp_all add: lmp_init_checked_def Let_def split: if_splits)
  have sl_eq: "sl = ?m ?len_at"
    using sl by (rule peek_value)
  obtain mp where mp: "for_each (scan_step_checked bytes ?seq) [0..<128] 0 = Inr mp"
    using assms mk sl by (cases "for_each (scan_step_checked bytes ?seq) [0..<128] 0")
      (simp_all add: lmp_init_checked_def Let_def split: if_splits)
  have mp_eq: "mp = scan_max_patt ?m ?seq"
    using mp by (rule scan_checked_value)
  let ?st = "((if mk then 0x43c else 0x258) + 4 * (256 * (mp + 1)), inst mps0)"
  obtain filled where fi: "for_each (init_instrument_checked bytes 0x14) [0..<?n] ?st = Inr filled"
    using assms mk sl mp
    by (cases "for_each (init_instrument_checked bytes 0x14) [0..<?n] ?st")
       (simp_all add: lmp_init_checked_def Let_def split: if_splits)
  have fi_eq: "filled = fold (init_instrument ?m 0x14) [0..<?n] ?st"
    using fi by (rule instruments_checked_value)
  show ?thesis
  proof (cases mk)
    case True
    with assms mk sl mp fi show ?thesis
      unfolding lmp_init_checked_def lmp_init_def Let_def
      using mk_eq sl_eq mp_eq fi_eq by (simp add: samps_125)
  next
    case False
    with assms mk sl mp fi show ?thesis
      unfolding lmp_init_checked_def lmp_init_def Let_def
      using mk_eq sl_eq mp_eq fi_eq by (simp add: samps_125)
  qed
qed

lemma lmp_init_checked_long:
  assumes "0x43c \<le> length bytes"
  shows "lmp_init_checked mps0 bytes behind = Inr (0, init_mps mps0 (slice_memory bytes behind))"
proof (cases "lmp_init_checked mps0 bytes behind")
  case (Inl e)
  from lmp_init_checked_fault [OF Inl] assms show ?thesis
    by auto
next
  case (Inr x)
  from lmp_init_checked_value [OF Inr] show ?thesis
    using Inr by (simp add: lmp_init_returns)
qed

lemma lmp_init_checked_short:
  "length bytes \<le> 0x438 \<Longrightarrow> lmp_init_checked mps0 bytes behind = Inl (ReadPastEnd 0x438)"
  by (simp add: lmp_init_checked_def strncmp_checked_past_end)

lemma slice_zeros: "slice_memory (replicate n 0) (\<lambda>a. 0) = (\<lambda>a. 0)"
  by (auto simp add: slice_memory_def)

lemma zeros_not_MK: "\<not> strncmp_MK (\<lambda>a. 0) a"
  by (simp add: strncmp_MK_def upt_4 magic_MK_def)

lemma zeros_scan: "scan_max_patt (\<lambda>a. 0) seq = 0"
  by (rule scan_max_patt_zero) simp


lemma header_only_length: "length header_only = 0x43c"
  unfolding header_only_def by (rule length_replicate)

lemma header_only_memory: "slice_memory header_only (\<lambda>a. 0) = (\<lambda>a. 0)"
  unfolding header_only_def by (rule slice_zeros)

lemma header_only_init:
  "lmp_init_checked zero_mps header_only (\<lambda>a. 0) = Inr (0, init_mps zero_mps (\<lambda>a. 0))"
  using lmp_init_checked_long [of header_only zero_mps "\<lambda>a. 0"]
  by (simp only: header_only_length header_only_memory order_refl)

text \<open>
  C1 (as the code has it).  \<^verbatim>\<open>lmp_init\<close> is given a pointer and no length, compares no
  offset against anything and has a single \<^verbatim>\<open>return 0\<close>.  On a slice of at least 0x43c
  bytes every read is inside the slice and the call returns 0, with the state that
  \<^verbatim>\<open>lmp_init\<close> computes from the slice.  On a slice of at most 0x438 bytes the first
  read, of the magic at 0x438, is past the end of the slice.  In general the call either
  returns 0, with that same state, or reads past the end of the slice at an offset below
  0x43c; it returns no other value.
\<close>

theorem lmp_init_checks_no_length:
  "(0x43c \<le> length bytes \<longrightarrow>
      lmp_init_checked mps0 bytes behind = Inr (0, init_mps mps0 (slice_memory bytes behind)))
   \<and> (length bytes \<le> 0x438 \<longrightarrow> lmp_init_checked mps0 bytes behind = Inl (ReadPastEnd 0x438))
   \<and> (\<forall>r mps. lmp_init_checked mps0 bytes behind = Inr (r, mps) \<longrightarrow>
         r = 0 \<and> mps = init_mps mps0 (slice_memory bytes behind))
   \<and> (\<forall>e. lmp_init_checked mps0 bytes behind = Inl e \<longrightarrow>
         (\<exists>a. e = ReadPastEnd a \<and> length bytes \<le> a \<and> a < 0x43c))"
proof (intro conjI impI allI)
  assume "0x43c \<le> length bytes"
  then show "lmp_init_checked mps0 bytes behind = Inr (0, init_mps mps0 (slice_memory bytes behind))"
    by (rule lmp_init_checked_long)
next
  assume "length bytes \<le> 0x438"
  then show "lmp_init_checked mps0 bytes behind = Inl (ReadPastEnd 0x438)"
    by (rule lmp_init_checked_short)
next
  fix r mps
  assume "lmp_init_checked mps0 bytes behind = Inr (r, mps)"
  from lmp_init_checked_value [OF this]
  show "r = 0" and "mps = init_mps mps0 (slice_memory bytes behind)"
    by (simp_all add: lmp_init_returns)
next
  fix e
  assume "lmp_init_checked mps0 bytes behind = Inl e"
  then show "\<exists>a. e = ReadPastEnd a \<and> length bytes \<le> a \<and> a < 0x43c"
    by (rule lmp_init_checked_fault)
qed

theorem lmp_init_checks_no_length_witness:
  "0x43c \<le> length header_only
     \<and> lmp_init_checked zero_mps header_only (\<lambda>a. 0) = Inr (0, init_mps zero_mps (\<lambda>a. 0))
     \<and> length ([] :: u8 list) \<le> 0x438
     \<and> lmp_init_checked zero_mps [] (\<lambda>a. 0) = Inl (ReadPastEnd 0x438)"
proof -
  have a: "0x43c \<le> length header_only"
    by (simp only: header_only_length order_refl)
  have b: "length ([] :: u8 list) \<le> 0x438"
    by simp
  have 1: "lmp_init_checked zero_mps header_only (\<lambda>a. 0)
             = Inr (0, init_mps zero_mps (slice_memory header_only (\<lambda>a. 0)))"
    by (rule lmp_init_checks_no_length [of header_only zero_mps "\<lambda>a. 0",
          THEN conjunct1, THEN mp, OF a])
  have 2: "lmp_init_checked zero_mps [] (\<lambda>a. 0) = Inl (ReadPastEnd 0x438)"
    by (rule lmp_init_checks_no_length [of "[]" zero_mps "\<lambda>a. 0",
          THEN conjunct2, THEN conjunct1, THEN mp, OF b])
  from a b 1 2 show ?thesis
    by (simp only: header_only_memory simp_thms)
qed

text \<open>
  C1 as stated fails.  The slice of 0x43c zero bytes is a 15-instrument module cut off
  inside its pattern data, which runs from 0x258 to the first sample at the computed
  offset 0x658: \<^verbatim>\<open>lmp_init\<close> reads inside the slice only and returns success.  On
  the empty slice it reports nothing either: it reads the magic at 0x438.
\<close>

theorem lmp_init_truncated_counterexample:
  "(\<exists>mps. lmp_init_checked zero_mps header_only (\<lambda>a. 0) = Inr (0, mps)
       \<and> patterns mps = 0x258 \<and> sample (inst mps 0) = 0x658
       \<and> length header_only < sample (inst mps 0))
   \<and> lmp_init_checked zero_mps [] (\<lambda>a. 0) = Inl (ReadPastEnd 0x438)"
proof -
  let ?s = "init_mps zero_mps (\<lambda>a. 0)"
  have "patterns ?s = 0x258" and "sample (inst ?s 0) = 0x658"
    by (simp_all add: init_mps_layout init_mps_first_sample zeros_not_MK zeros_scan)
  moreover have "lmp_init_checked zero_mps [] (\<lambda>a. 0) = Inl (ReadPastEnd 0x438)"
    by (rule lmp_init_checked_short) simp
  ultimately show ?thesis
    using header_only_init by (simp add: header_only_length)
qed

section \<open>Set speed\<close>

text \<open>
  C7, at its failing input.  Command 15 with parameter 0x1f changes nothing: the speed
  branch tests \<^verbatim>\<open>val < 0x1f\<close> and the tempo branch \<^verbatim>\<open>val >= 0x20\<close>, so 0x1f falls
  between them and the speed and the tick counter keep their values.
\<close>

theorem set_speed_1f_ignored:
  "lmp_process_command mps chan 15 0x1f = Inr mps"
  by (simp add: lmp_process_command_def)

text \<open>The parameters the two branches do take, for comparison.\<close>

lemma set_speed_below_1f:
  "0 < val \<Longrightarrow> val < 0x1f \<Longrightarrow>
     lmp_process_command mps chan 15 val
       = Inr (mps\<lparr>speed := ucast val, tick_counter := ucast val\<rparr>)"
  by (auto simp add: lmp_process_command_def Let_def word_le_nat_alt word_less_nat_alt)

lemma set_tempo_from_20:
  "0x20 \<le> val \<Longrightarrow> support_tempo mps \<noteq> 0 \<Longrightarrow>
     \<exists>spt. lmp_samps_from_tempo (ucast val) = Inr spt
       \<and> lmp_process_command mps chan 15 val
           = Inr (mps\<lparr>tempo := ucast val, samples_per_tick := spt\<rparr>)"
  using samps_from_val [of val]
  by (auto simp add: lmp_process_command_def Let_def word_le_nat_alt word_less_nat_alt)

section \<open>Portamento up\<close>

text \<open>
  One inter-row tick on a channel at pitch 113 with a portamento up of 255 armed: the
  \<^verbatim>\<open>uint16_t\<close> subtraction wraps around to 65394 before the comparison with 113, so
  the clamp does not fire.
\<close>

lemma porta_up_wraps:
  "map_sum id (\<lambda>r. c_pitch (cs (snd r) 0)) (lmp_tick porta_up_state) = Inr 65394"
  by (simp add: lmp_tick_def porta_up_state_def zero_mps_def zero_chan_def upt_4
        tick_effect_chan_def set_chan_def lmp_pi_from_pitch_nonzero Let_def)

lemma porta_armed_render: "porta_armed mps \<Longrightarrow> porta_armed (snd (lmp_render_samples mps))"
  by (simp add: porta_armed_def lmp_render_samples_slide)

lemma porta_armed_sample_counter [simp]:
  "porta_armed (mps\<lparr>sample_counter := x\<rparr>) = porta_armed mps"
  by (simp add: porta_armed_def)

lemma porta_armed_tick:
  "porta_armed mps \<Longrightarrow> \<exists>s'. lmp_tick mps = Inr (0, s') \<and> c_pitch (cs s' 0) = 65394"
  by (simp add: porta_armed_def lmp_tick_def upt_4 tick_effect_chan_def Let_def
        set_chan_fields lmp_pi_from_pitch_nonzero)

lemma PORTA_not_MK: "\<not> strncmp_MK module_PORTA 0x438"
  by (simp add: strncmp_MK_def module_PORTA_def upt_4 magic_MK_def)

lemma PORTA_bytes: "module_PORTA 0x1d6 = 1" "module_PORTA 0x1d8 = 0"
  by (simp_all add: module_PORTA_def)

lemma PORTA_cells:
  "load32 module_PORTA 0x258 = 0xFF017100"
  "load32 module_PORTA (0x258 + 4) = 0"
  "load32 module_PORTA (0x258 + 8) = 0"
  "load32 module_PORTA (0x258 + 12) = 0"
  by (simp_all add: load32_def module_PORTA_def)

lemma decode_PORTA:
  "note_val 0xFF017100 = 0xff" "note_inst 0xFF017100 = 0" "note_freq 0xFF017100 = 113"
  "note_command 0xFF017100 = 1"
  by (simp_all add: note_val_def note_inst_def note_freq_def note_command_def)

lemma tick_row_chan_porta:
  assumes "load32 (mod_data mps) (fr + 4 * chan) = 0xFF017100"
  shows "\<exists>s'. tick_row_chan fr mps chan = Inr s'
           \<and> c_pitch (cs s' chan) = 113 \<and> c_effect (cs s' chan) = 1
           \<and> c_effect_param (cs s' chan) = 255
           \<and> mod_data s' = mod_data mps \<and> tick_counter s' = tick_counter mps"
  using assms
  by (simp add: tick_row_chan_def host_to_LE32_def Let_def set_chan_fields decode_PORTA
        lmp_pi_from_pitch_nonzero lmp_process_command_def)

text \<open>
  C6, at its failing input.  The module whose first cell is 00 71 01 FF is loaded and
  two buffers of 882 mono samples are filled.  The first ends with the row tick that
  plays period 113 and arms the slide, the second with the first inter-row tick: the
  pitch of channel 0 is then 65394, where \<open>max (113 - 255) 113\<close> is 113.
\<close>

theorem porta_up_wraps_in_play:
  "fill_final (\<lambda>mps. c_pitch (cs mps 0))
     (then_fill (lmp_fill_buffer (init_mps zero_mps module_PORTA) 882 LMP_MONO) 882 LMP_MONO)
     = Some (Inr 65394)"
proof -
  let ?ini = "init_mps zero_mps module_PORTA"
  let ?row = "?ini\<lparr>tick_counter := speed ?ini, pos_pattern := pos_pattern ?ini + 1\<rparr>"
  have modes: "LMP_MONO \<in> {LMP_MONO, LMP_STEREO_HARD, LMP_STEREO_SOFT}"
    by simp
  obtain s1 where 1: "tick_row_chan 0x258 ?row 0 = Inr s1"
    and a1: "c_pitch (cs s1 0) = 113" "c_effect (cs s1 0) = 1" "c_effect_param (cs s1 0) = 255"
      "mod_data s1 = module_PORTA" "tick_counter s1 = 6"
    using tick_row_chan_porta [of ?row "0x258" 0] PORTA_cells
    by (auto simp add: init_mps_fields)
  let ?s2 = "set_chan s1 1 ((cs s1 1)\<lparr>c_effect := 0xff\<rparr>)"
  have 2: "tick_row_chan 0x258 s1 1 = Inr ?s2"
    using PORTA_cells a1 by (simp add: tick_row_chan_empty)
  let ?s3 = "set_chan ?s2 2 ((cs ?s2 2)\<lparr>c_effect := 0xff\<rparr>)"
  have 3: "tick_row_chan 0x258 ?s2 2 = Inr ?s3"
    using PORTA_cells a1 by (simp add: tick_row_chan_empty set_chan_fields)
  let ?s4 = "set_chan ?s3 3 ((cs ?s3 3)\<lparr>c_effect := 0xff\<rparr>)"
  have 4: "tick_row_chan 0x258 ?s3 3 = Inr ?s4"
    using PORTA_cells a1 by (simp add: tick_row_chan_empty set_chan_fields)
  have loop: "for_each (tick_row_chan 0x258) [0..<4] ?row = Inr ?s4"
    using 1 2 3 4 by (simp add: upt_4)
  obtain d s' where t: "lmp_tick ?ini = Inr (d, s')" and c: "cs s' = cs ?s4"
    and tc: "tick_counter s' = tick_counter ?s4"
    using lmp_tick_row_state [of ?ini ?s4] loop
    by (auto simp add: init_mps_fields init_mps_layout PORTA_not_MK PORTA_bytes)
  have armed: "porta_armed s'"
    using a1 by (simp add: porta_armed_def c tc set_chan_fields)
  have sc: "unat (sample_counter s') = Suc 881"
    using lmp_tick_result(2) [OF t] by (simp add: init_mps_fields)
  from run_frames_until_tick [of porta_armed "\<lambda>s. c_pitch (cs s 0) = 65394",
      OF porta_armed_render _ porta_armed_tick armed sc, of mix_mono 0 "[]"]
  obtain out2 s2 where "run_frames mix_mono (Suc 881) 0 [] s' = Inr (1, out2, s2)"
    and "c_pitch (cs s2 0) = 65394"
    by auto
  then have second: "lmp_fill_buffer s' 882 LMP_MONO = Some (Inr (1, out2, s2))"
    using lmp_fill_buffer_run [OF modes, of 882 882 s']
    by (simp add: frame_width_def mixer_def)
  show ?thesis
    using init_first_call [OF t] second \<open>c_pitch (cs s2 0) = 65394\<close>
    by (simp add: fill_final_def then_fill_def)
qed





section \<open>Interpolation at the end of a sample\<close>

text \<open>
  One channel, by itself: with \<open>ip = 1\<close> and \<open>len_fp >> 12 = 2\<close> the test of the code,
  \<open>ip < 2\<close>, holds where \<open>ip + 1 < 2\<close> does not, and the second sample is read at
  index 2.
\<close>

lemma render_reads_past_end:
  "fst (render_chan past_end_memory past_end_chan) = 12800"
  by (simp add: render_chan_def past_end_chan_def past_end_memory_def zero_chan_def
        SAMP_FP_SPLIT_def c_div_def Let_def)

lemma PAST_not_MK: "\<not> strncmp_MK module_PAST 0x438"
  by (simp add: strncmp_MK_def module_PAST_def upt_4 magic_MK_def)

lemma PAST_bytes: "module_PAST 0x1d6 = 1" "module_PAST 0x1d8 = 0"
  by (simp_all add: module_PAST_def)

lemma PAST_scan: "scan_max_patt module_PAST 0x1d8 = 0"
  by (rule scan_max_patt_zero) (simp add: module_PAST_def)

lemma PAST_header:
  "BE_to_host16 (load16 module_PAST 42) = 1"
  "BE_to_host16 (load16 module_PAST 44) = 0x40"
  "BE_to_host16 (load16 module_PAST 48) = 1"
  by (simp_all add: load16_def BE_to_host16_def BS16_def module_PAST_def)

lemma PAST_instrument:
  "sample (inst (init_mps zero_mps module_PAST) 0) = 0x658"
  "len (inst (init_mps zero_mps module_PAST) 0) = 2"
  "repeat_len (inst (init_mps zero_mps module_PAST) 0) = 2"
  "default_volume (inst (init_mps zero_mps module_PAST) 0) = 0x40"
  by (simp_all add: init_mps_first_sample init_mps_instrument init_mps_default_volume
        init_mps_layout PAST_not_MK PAST_scan PAST_header)

lemma PAST_cells:
  "load32 module_PAST 0x258 = 0x00107100"
  "load32 module_PAST (0x258 + 4) = 0"
  "load32 module_PAST (0x258 + 8) = 0"
  "load32 module_PAST (0x258 + 12) = 0"
  by (simp_all add: load32_def module_PAST_def)

lemma decode_PAST:
  "note_val 0x00107100 = 0" "note_inst 0x00107100 = 1" "note_freq 0x00107100 = 113"
  "note_command 0x00107100 = 0"
  by (simp_all add: note_val_def note_inst_def note_freq_def note_command_def)

lemma PAST_render:
  "render_chan module_PAST (PAST_voice 0) = (0, PAST_voice 2922)"
  "render_chan module_PAST (PAST_voice 2922) = (0, PAST_voice 5844)"
  "render_chan module_PAST (PAST_voice 5844) = (10925, (PAST_voice 8766)\<lparr>c_on := 0\<rparr>)"
  by (simp_all add: render_chan_def PAST_voice_def module_PAST_def SAMP_FP_SPLIT_def c_div_def
        Let_def)

text \<open>
  C5, at its failing input.  The module with the two-byte instrument is loaded, a buffer
  of 882 mono samples is filled (its last frame runs the row tick that starts the note),
  and then a buffer of three.  At the third frame the voice is at position 5844, so
  \<open>ip = 1\<close> and \<open>ip + 1 = 2 = len_fp >> 12\<close>: the code reads the second sample at
  index 2, which is the byte at 0x65A behind the module, and stores 2731.  With
  \<open>c2 = c1\<close> the frame would be 0, as the sample data is.
\<close>

theorem render_reads_past_end_in_play:
  "fill_samples
     (then_fill (lmp_fill_buffer (init_mps zero_mps module_PAST) 882 LMP_MONO) 3 LMP_MONO)
     = Some (Inr [0, 0, 2731])"
proof -
  let ?ini = "init_mps zero_mps module_PAST"
  let ?row = "?ini\<lparr>tick_counter := speed ?ini, pos_pattern := pos_pattern ?ini + 1\<rparr>"
  have modes: "LMP_MONO \<in> {LMP_MONO, LMP_STEREO_HARD, LMP_STEREO_SOFT}"
    by simp
  let ?q1 = "set_chan ?row 0 (PAST_voice 0)"
  have 1: "tick_row_chan 0x258 ?row 0 = Inr ?q1"
    using tick_row_chan_note_state [of ?row "0x258" 0 "0x00107100"] PAST_cells
    by (simp add: decode_PAST init_mps_fields init_mps_layout PAST_not_MK PAST_instrument
          init_zero_chan PAST_voice_def)
  let ?q2 = "set_chan ?q1 1 ((cs ?q1 1)\<lparr>c_effect := 0xff\<rparr>)"
  have 2: "tick_row_chan 0x258 ?q1 1 = Inr ?q2"
    using PAST_cells by (simp add: tick_row_chan_empty set_chan_fields init_mps_fields)
  let ?q3 = "set_chan ?q2 2 ((cs ?q2 2)\<lparr>c_effect := 0xff\<rparr>)"
  have 3: "tick_row_chan 0x258 ?q2 2 = Inr ?q3"
    using PAST_cells by (simp add: tick_row_chan_empty set_chan_fields init_mps_fields)
  let ?q4 = "set_chan ?q3 3 ((cs ?q3 3)\<lparr>c_effect := 0xff\<rparr>)"
  have 4: "tick_row_chan 0x258 ?q3 3 = Inr ?q4"
    using PAST_cells by (simp add: tick_row_chan_empty set_chan_fields init_mps_fields)
  have loop: "for_each (tick_row_chan 0x258) [0..<4] ?row = Inr ?q4"
    using 1 2 3 4 by (simp add: upt_4)
  obtain d s' where t: "lmp_tick ?ini = Inr (d, s')" and c: "cs s' = cs ?q4"
    and m: "mod_data s' = mod_data ?q4"
    using lmp_tick_row_state [of ?ini ?q4] loop
    by (auto simp add: init_mps_fields init_mps_layout PAST_not_MK PAST_bytes)
  have sc: "sample_counter s' = 882"
    using lmp_tick_result(2) [OF t] by (simp add: init_mps_fields)
  have v0: "voice0 s' (PAST_voice 0) module_PAST 882"
    by (simp add: voice0_def c m sc set_chan_fields init_mps_fields init_zero_chan)
  obtain s1 where f1: "frame mix_mono s' = Inr (0, [0], s1)"
    and v1: "voice0 s1 (PAST_voice 2922) module_PAST 881"
    using frame_voice0 [OF v0 _ PAST_render(1)] by (auto simp add: c_div_def)
  obtain s2 where f2: "frame mix_mono s1 = Inr (0, [0], s2)"
    and v2: "voice0 s2 (PAST_voice 5844) module_PAST 880"
    using frame_voice0 [OF v1 _ PAST_render(2)] by (auto simp add: c_div_def)
  obtain s3 where f3: "frame mix_mono s2 = Inr (0, [2731], s3)"
    using frame_voice0 [OF v2 _ PAST_render(3)] by (auto simp add: c_div_def)
  have "run_frames mix_mono 3 0 [] s' = Inr (1, [0, 0, 2731], s3)"
    by (simp add: numeral_3_eq_3 f1 f2 f3)
  then have second: "lmp_fill_buffer s' 3 LMP_MONO = Some (Inr (1, [0, 0, 2731], s3))"
    using lmp_fill_buffer_run [OF modes, of 3 3 s']
    by (simp add: frame_width_def mixer_def)
  show ?thesis
    using init_first_call [OF t] second
    by (simp add: fill_samples_def then_fill_def)
qed

section \<open>Default volume\<close>

lemma VOL_not_MK: "\<not> strncmp_MK module_VOL 0x438"
  by (simp add: strncmp_MK_def module_VOL_def upt_4 magic_MK_def)

lemma VOL_bytes: "module_VOL 0x1d6 = 1" "module_VOL 0x1d8 = 0"
  by (simp_all add: module_VOL_def)

lemma VOL_cells:
  "load32 module_VOL 0x258 = 0x0010AC01"
  "load32 module_VOL (0x258 + 4) = 0"
  "load32 module_VOL (0x258 + 8) = 0"
  "load32 module_VOL (0x258 + 12) = 0"
  by (simp_all add: load32_def module_VOL_def)

lemma decode_VOL:
  "note_val 0x0010AC01 = 0" "note_inst 0x0010AC01 = 1" "note_freq 0x0010AC01 = 428"
  "note_command 0x0010AC01 = 0"
  by (simp_all add: note_val_def note_inst_def note_freq_def note_command_def)

lemma VOL_volume: "default_volume (inst (init_mps zero_mps module_VOL) 0) = 0x7f"
  by (simp add: init_mps_default_volume load16_def BE_to_host16_def BS16_def module_VOL_def)

text \<open>
  C3, at its failing input.  The low seven bits of a volume byte reach 127, and nothing
  between the header and the channel caps them: after the row tick that plays
  instrument 1 of the module with volume byte 0x7F, the volume of channel 0 is 127.
\<close>

theorem default_volume_127_installed:
  "fill_final (\<lambda>mps. c_vol (cs mps 0))
     (lmp_fill_buffer (init_mps zero_mps module_VOL) 882 LMP_MONO) = Some (Inr 127)"
proof -
  let ?ini = "init_mps zero_mps module_VOL"
  let ?row = "?ini\<lparr>tick_counter := speed ?ini, pos_pattern := pos_pattern ?ini + 1\<rparr>"
  obtain s1 where 1: "tick_row_chan 0x258 ?row 0 = Inr s1" and v1: "c_vol (cs s1 0) = 0x7f"
    and m1: "mod_data s1 = module_VOL"
    using tick_row_chan_note [of ?row "0x258" 0 "0x0010AC01"] VOL_cells VOL_volume
    by (auto simp add: decode_VOL init_mps_fields init_mps_layout VOL_not_MK)
  obtain s2 where 2: "tick_row_chan 0x258 s1 1 = Inr s2" and v2: "c_vol (cs s2 0) = 0x7f"
    and m2: "mod_data s2 = module_VOL"
    using tick_row_chan_empty_fields [of s1 "0x258" 1] VOL_cells m1 v1 by auto
  obtain s3 where 3: "tick_row_chan 0x258 s2 2 = Inr s3" and v3: "c_vol (cs s3 0) = 0x7f"
    and m3: "mod_data s3 = module_VOL"
    using tick_row_chan_empty_fields [of s2 "0x258" 2] VOL_cells m2 v2 by auto
  obtain s4 where 4: "tick_row_chan 0x258 s3 3 = Inr s4" and v4: "c_vol (cs s4 0) = 0x7f"
    using tick_row_chan_empty_fields [of s3 "0x258" 3] VOL_cells m3 v3 by auto
  have loop: "for_each (tick_row_chan 0x258) [0..<4] ?row = Inr s4"
    using 1 2 3 4 by (simp add: upt_4)
  obtain d s' where t: "lmp_tick ?ini = Inr (d, s')" and c: "cs s' = cs s4"
    using lmp_tick_row_state [of ?ini s4] loop
    by (auto simp add: init_mps_fields init_mps_layout VOL_not_MK VOL_bytes)
  show ?thesis
    using init_first_call [OF t] c v4 by (simp add: fill_final_def)
qed

text \<open>
  What does hold: the tick and the rendering keep every channel volume at most 64 as long
  as every default volume is (commands 10 and 12 clamp, a new note copies a default
  volume), and \<^verbatim>\<open>lmp_init\<close> starts every channel at 64.
\<close>

lemma clamped_volume: "0 \<le> v \<Longrightarrow> v \<le> 0x40 \<Longrightarrow> (word_of_int v :: u8) \<le> 0x40"
  by (simp add: word_le_def uint_word_of_int take_bit_eq_mod)

lemma slid_volume:
  "0 \<le> uint a + sint b \<Longrightarrow> uint a + sint b \<le> 0x40 \<Longrightarrow> a + b \<le> 0x40" for a b :: u8
  using clamped_volume [of "uint a + sint b"] by simp

lemma lmp_process_command_inst:
  "lmp_process_command mps chan command val = Inr mps' \<Longrightarrow> inst mps' = inst mps"
  by (auto simp add: lmp_process_command_def set_chan_fields Let_def
        split: if_splits sum.splits)

lemma lmp_process_command_vol:
  assumes "lmp_process_command mps chan command val = Inr mps'"
    and "c_vol (cs mps c) \<le> 0x40"
  shows "c_vol (cs mps' c) \<le> 0x40"
  using assms
  by (auto simp add: lmp_process_command_def set_chan_fields Let_def slid_volume
        split: if_splits sum.splits)

lemma note_inst_index:
  "ins \<noteq> 0 \<Longrightarrow> ins \<le> (if t \<noteq> (0 :: u8) then 31 else 15) \<Longrightarrow> unat (ins - 1) < 31"
  for ins :: u8
  by (auto simp add: word_le_nat_alt unat_minus_one split: if_splits)

lemma tick_row_chan_vol:
  assumes "tick_row_chan fr mps chan = Inr mps'"
    and "header_volumes_bounded mps" and "c_vol (cs mps c) \<le> 0x40"
  shows "c_vol (cs mps' c) \<le> 0x40" and "inst mps' = inst mps"
proof -
  let ?note = "host_to_LE32 (load32 (mod_data mps) (fr + 4 * chan))"
  let ?played = "note_freq ?note \<noteq> 0
                   \<and> note_inst ?note \<le> (if thirtyone mps \<noteq> 0 then 31 else 15)"
  obtain m1 where m1: "lmp_process_command m1 chan (note_command ?note) (note_val ?note) = Inr mps'"
    and i1: "inst m1 = inst mps"
    and v1: "c_vol (cs m1 c) = c_vol (cs mps c)
              \<or> (?played \<and> note_inst ?note \<noteq> 0
                   \<and> c_vol (cs m1 c) = default_volume (inst mps (unat (note_inst ?note - 1))))"
    using assms(1)
    by (auto simp add: tick_row_chan_def Let_def set_chan_fields split: if_splits sum.splits)
  have "c_vol (cs m1 c) \<le> 0x40"
    using v1 assms(2,3) note_inst_index [of "note_inst ?note" "thirtyone mps"]
    by (auto simp add: header_volumes_bounded_def)
  with m1 show "c_vol (cs mps' c) \<le> 0x40"
    by (rule lmp_process_command_vol)
  from lmp_process_command_inst [OF m1] i1 show "inst mps' = inst mps"
    by simp
qed

lemma for_each_invariant:
  assumes "\<And>s i s'. body s i = Inr s' \<Longrightarrow> P s \<Longrightarrow> P s'"
  shows "for_each body xs s = Inr s' \<Longrightarrow> P s \<Longrightarrow> P s'"
proof (induction xs arbitrary: s)
  case Nil
  then show ?case by simp
next
  case (Cons x xs)
  then obtain s1 where 1: "body s x = Inr s1" and 2: "for_each body xs s1 = Inr s'"
    by (auto split: sum.splits)
  from assms [OF 1 Cons.prems(2)] Cons.IH [OF 2] show ?case
    by simp
qed

lemma tick_row_chan_inst: "tick_row_chan fr mps chan = Inr mps' \<Longrightarrow> inst mps' = inst mps"
  by (auto simp add: tick_row_chan_def Let_def set_chan_fields
        dest: lmp_process_command_inst split: if_splits sum.splits)

lemma tick_row_chan_volumes:
  "tick_row_chan fr mps chan = Inr mps' \<Longrightarrow> volumes_ok mps \<Longrightarrow> volumes_ok mps'"
  using tick_row_chan_vol(1) [of fr mps chan mps'] tick_row_chan_inst [of fr mps chan mps']
  by (simp add: volumes_ok_def vol_bounded_def header_volumes_bounded_def)

lemma tick_effect_chan_volumes:
  "tick_effect_chan mps chan = Inr mps' \<Longrightarrow> volumes_ok mps \<Longrightarrow> volumes_ok mps'"
  by (auto simp add: tick_effect_chan_def Let_def set_chan_fields volumes_ok_def vol_bounded_def
        header_volumes_bounded_def split: if_splits sum.splits)

lemma volumes_ok_fields [simp]:
  "volumes_ok (mps\<lparr>tick_counter := a\<rparr>) = volumes_ok mps"
  "volumes_ok (mps\<lparr>pos_pattern := b\<rparr>) = volumes_ok mps"
  "volumes_ok (mps\<lparr>pos := c\<rparr>) = volumes_ok mps"
  "volumes_ok (mps\<lparr>sample_counter := d\<rparr>) = volumes_ok mps"
  by (simp_all add: volumes_ok_def vol_bounded_def header_volumes_bounded_def)

lemma lmp_tick_volumes:
  assumes "lmp_tick mps = Inr (d, mps')" and "volumes_ok mps"
  shows "volumes_ok mps'"
proof (cases "1 < tick_counter mps")
  case True
  with assms(1) obtain s1 where "for_each tick_effect_chan [0..<4] mps = Inr s1"
    and "mps' = s1\<lparr>tick_counter := tick_counter s1 - 1\<rparr>"
    by (auto simp add: lmp_tick_def split: sum.splits)
  then show ?thesis
    using for_each_invariant [of tick_effect_chan volumes_ok, OF tick_effect_chan_volumes] assms(2)
    by auto
next
  case False
  with assms(1) obtain fr s3 where f: "for_each (tick_row_chan fr) [0..<4]
       (mps\<lparr>tick_counter := speed mps, pos_pattern := pos_pattern mps + 1\<rparr>) = Inr s3"
    and "volumes_ok mps' = volumes_ok s3"
    by (auto simp add: lmp_tick_def Let_def split: sum.splits if_splits)
  then show ?thesis
    using for_each_invariant [of "tick_row_chan fr" volumes_ok, OF tick_row_chan_volumes, OF _ _ f]
      assms(2) by auto
qed

lemma render_chan_vol: "c_vol (snd (render_chan m c)) = c_vol c"
  by (simp add: render_chan_def Let_def)

lemma render_step_volumes: "volumes_ok (snd st) \<Longrightarrow> volumes_ok (snd (render_step st chan))"
  by (auto simp add: render_step_def Let_def set_chan_fields render_chan_vol volumes_ok_def
        vol_bounded_def header_volumes_bounded_def)

lemma lmp_render_samples_volumes: "volumes_ok mps \<Longrightarrow> volumes_ok (snd (lmp_render_samples mps))"
  by (simp add: lmp_render_samples_def upt_4 render_step_volumes)

lemma frame_volumes:
  "frame mix mps = Inr t \<Longrightarrow> volumes_ok mps \<Longrightarrow> volumes_ok (snd (snd t))"
  using lmp_tick_volumes lmp_render_samples_volumes [of mps]
  by (auto simp add: frame_def lmp_check_for_tick_def Let_def split: sum.splits if_splits)

lemma run_frames_volumes:
  "run_frames mix k d out mps = Inr (r, out', mps') \<Longrightarrow> volumes_ok mps \<Longrightarrow> volumes_ok mps'"
proof (induction k arbitrary: d out mps)
  case 0
  then show ?case by simp
next
  case (Suc k)
  then obtain t where t: "frame mix mps = Inr t"
    and "run_frames mix k (d OR fst t) (out @ fst (snd t)) (snd (snd t)) = Inr (r, out', mps')"
    by (auto split: sum.splits)
  then show ?case
    using Suc.IH frame_volumes [OF t Suc.prems(2)] by blast
qed

lemma lmp_fill_buffer_volumes:
  assumes "mix_type \<in> {LMP_MONO, LMP_STEREO_HARD, LMP_STEREO_SOFT}"
    and "mix_type = LMP_MONO \<or> even (unat n)"
    and "lmp_fill_buffer mps n mix_type = Some (Inr (r, out, mps'))"
    and "vol_bounded mps" and "header_volumes_bounded mps"
  shows "vol_bounded mps'"
proof -
  obtain k where k: "unat n = frame_width mix_type * k"
    using assms(1,2)
    by (auto simp add: frame_width_def LMP_MONO_def LMP_STEREO_HARD_def LMP_STEREO_SOFT_def
          elim: evenE)
  have "run_frames (mixer mix_type) k 0 [] mps = Inr (r, out, mps')"
    using lmp_fill_buffer_run [OF assms(1) k, of mps] assms(3) by simp
  then have "volumes_ok mps'"
    using assms(4,5) by (auto simp add: volumes_ok_def dest: run_frames_volumes)
  then show ?thesis
    by (simp add: volumes_ok_def)
qed

lemma init_mps_vol_bounded: "vol_bounded (init_mps mps0 m)"
  by (simp add: vol_bounded_def init_mps_chan)

section \<open>A song that never ends\<close>


lemma render_step_sequencer:
  "mod_data (snd (render_step st chan)) = mod_data (snd st)"
  "sequence (snd (render_step st chan)) = sequence (snd st)"
  "patterns (snd (render_step st chan)) = patterns (snd st)"
  "length_m (snd (render_step st chan)) = length_m (snd st)"
  "pos_pattern (snd (render_step st chan)) = pos_pattern (snd st)"
  by (simp_all add: render_step_def Let_def set_chan_def)

lemma lmp_render_samples_sequencer:
  "mod_data (snd (lmp_render_samples mps)) = mod_data mps"
  "sequence (snd (lmp_render_samples mps)) = sequence mps"
  "patterns (snd (lmp_render_samples mps)) = patterns mps"
  "length_m (snd (lmp_render_samples mps)) = length_m mps"
  "pos_pattern (snd (lmp_render_samples mps)) = pos_pattern mps"
  by (simp_all add: lmp_render_samples_def upt_4 render_step_sequencer)








lemma lmp_tick_row_continues:
  assumes "\<not> 1 < tick_counter mps"
    and "for_each (tick_row_chan (patterns mps + 4 * unat (256 * ucast (mod_data mps
            (sequence mps + unat (pos mps))) + 4 * pos_pattern mps :: u32))) [0..<4]
          (mps\<lparr>tick_counter := speed mps, pos_pattern := pos_pattern mps + 1\<rparr>) = Inr s4"
    and "\<not> 63 < pos_pattern s4" and "\<not> ucast (length_m s4) \<le> pos s4"
  shows "lmp_tick mps = Inr (0, s4)"
  using assms by (simp add: lmp_tick_def Let_def)




section \<open>The end of a song: what a call returns\<close>




section \<open>A slide up followed by a slide down\<close>

text \<open>The wrapped period of the portamento up is 65535; the portamento down of the next
  row adds 1 to it in sixteen bits, and the phase increment is then computed from period 0.
  With 882 frames per call the fourth call of the fill routine on \<^const>\<open>module_TRAP\<close>
  reaches that division.\<close>

lemma run_frames_to_tick:
  assumes inv: "\<And>s. P s \<Longrightarrow> P (snd (lmp_render_samples s))"
    and upd: "\<And>s x. P s \<Longrightarrow> P (s\<lparr>sample_counter := x\<rparr>)"
    and tick: "\<And>s. P s \<Longrightarrow> sample_counter s = samples_per_tick s \<Longrightarrow>
                 \<exists>s'. lmp_tick s = Inr (0, s') \<and> Q s'"
  shows "P mps \<Longrightarrow> unat (sample_counter mps) = Suc k \<Longrightarrow>
     \<exists>out' s'. run_frames mix (Suc k) d out mps = Inr ((if d = 0 then 1 else 0), out', s') \<and> Q s'"
proof (induction k arbitrary: out mps)
  case 0
  then have one: "sample_counter mps = 1"
    by (metis One_nat_def unat_1 word_unat_eq_iff)
  let ?t = "(snd (lmp_render_samples mps))\<lparr>sample_counter := samples_per_tick (snd (lmp_render_samples mps))\<rparr>"
  have "P ?t"
    using 0(1) inv upd by blast
  moreover have "sample_counter ?t = samples_per_tick ?t"
    by simp
  ultimately obtain s' where "lmp_tick ?t = Inr (0, s')" and "Q s'"
    using tick by blast
  then show ?case
    using one by (simp add: frame_def Let_def lmp_check_for_tick_tick lmp_render_samples_keeps)
next
  case (Suc k)
  then have ne: "sample_counter mps \<noteq> 1"
    by auto
  let ?t = "(snd (lmp_render_samples mps))\<lparr>sample_counter := sample_counter mps - 1\<rparr>"
  have p: "P ?t"
    using Suc.prems(1) inv upd by blast
  have u: "unat (sample_counter ?t) = Suc k"
    using Suc.prems(2) by (simp add: unat_minus_one_pos)
  from Suc.IH [OF p u, of "out @ mix (fst (lmp_render_samples mps))"]
  show ?case
    by (simp add: frame_no_tick [OF ne])
qed

lemma run_frames_to_fault:
  assumes inv: "\<And>s. P s \<Longrightarrow> P (snd (lmp_render_samples s))"
    and upd: "\<And>s x. P s \<Longrightarrow> P (s\<lparr>sample_counter := x\<rparr>)"
    and tick: "\<And>s. P s \<Longrightarrow> lmp_tick s = Inl e"
  shows "P mps \<Longrightarrow> unat (sample_counter mps) = Suc k \<Longrightarrow>
           run_frames mix (Suc k) d out mps = Inl e"
proof (induction k arbitrary: out mps)
  case 0
  then have one: "sample_counter mps = 1"
    by (metis One_nat_def unat_1 word_unat_eq_iff)
  let ?t = "(snd (lmp_render_samples mps))\<lparr>sample_counter := samples_per_tick (snd (lmp_render_samples mps))\<rparr>"
  have "P ?t"
    using 0(1) inv upd by blast
  then have "lmp_tick ?t = Inl e"
    by (rule tick)
  then show ?case
    using one by (simp add: frame_def Let_def lmp_check_for_tick_tick lmp_render_samples_keeps)
next
  case (Suc k)
  then have ne: "sample_counter mps \<noteq> 1"
    by auto
  let ?t = "(snd (lmp_render_samples mps))\<lparr>sample_counter := sample_counter mps - 1\<rparr>"
  have p: "P ?t"
    using Suc.prems(1) inv upd by blast
  have u: "unat (sample_counter ?t) = Suc k"
    using Suc.prems(2) by (simp add: unat_minus_one_pos)
  from Suc.IH [OF p u, of "out @ mix (fst (lmp_render_samples mps))"]
  show ?case
    by (simp add: frame_no_tick [OF ne])
qed

lemma render_step_speed: "speed (snd (render_step st chan)) = speed (snd st)"
  by (simp add: render_step_def Let_def set_chan_def)

lemma lmp_render_samples_speed: "speed (snd (lmp_render_samples mps)) = speed mps"
  by (simp add: lmp_render_samples_def upt_4 render_step_speed)

lemma TRAP_player_render: "TRAP_player mps \<Longrightarrow> TRAP_player (snd (lmp_render_samples mps))"
  by (simp add: TRAP_player_def lmp_render_samples_sequencer lmp_render_samples_keeps
        lmp_render_samples_speed)

lemma TRAP_render:
  "TRAP_slide_up mps \<Longrightarrow> TRAP_slide_up (snd (lmp_render_samples mps))"
  "TRAP_wrapped mps \<Longrightarrow> TRAP_wrapped (snd (lmp_render_samples mps))"
  "TRAP_slide_down mps \<Longrightarrow> TRAP_slide_down (snd (lmp_render_samples mps))"
  by (simp_all add: TRAP_slide_up_def TRAP_wrapped_def TRAP_slide_down_def TRAP_player_render
        lmp_render_samples_slide)

lemma TRAP_sample_counter:
  "TRAP_slide_up mps \<Longrightarrow> TRAP_slide_up (mps\<lparr>sample_counter := x\<rparr>)"
  "TRAP_wrapped mps \<Longrightarrow> TRAP_wrapped (mps\<lparr>sample_counter := x\<rparr>)"
  "TRAP_slide_down mps \<Longrightarrow> TRAP_slide_down (mps\<lparr>sample_counter := x\<rparr>)"
  by (simp_all add: TRAP_slide_up_def TRAP_wrapped_def TRAP_slide_down_def TRAP_player_def)

lemma TRAP_slide_down_tick: "TRAP_slide_down mps \<Longrightarrow> lmp_tick mps = Inl DivByZero"
  by (simp add: TRAP_slide_down_def lmp_tick_def upt_4 tick_effect_chan_def Let_def
        lmp_pi_from_pitch_def)

lemma TRAP_slide_up_tick:
  assumes "TRAP_slide_up mps" and "sample_counter mps = samples_per_tick mps"
  shows "\<exists>s'. lmp_tick mps = Inr (0, s') \<and> TRAP_wrapped s' \<and> sample_counter s' = 882"
  using assms
  by (simp add: TRAP_slide_up_def TRAP_wrapped_def TRAP_player_def lmp_tick_def upt_4
        tick_effect_chan_def Let_def set_chan_def lmp_pi_from_pitch_nonzero)

lemma TRAP_not_MK: "\<not> strncmp_MK module_TRAP 0x438"
  by (simp add: strncmp_MK_def module_TRAP_def upt_4 magic_MK_def)

lemma TRAP_bytes: "module_TRAP 0x1d6 = 1" "module_TRAP 0x1d8 = 0"
  by (simp_all add: module_TRAP_def)

lemma TRAP_cells:
  "load32 module_TRAP 0x258 = 0x72017100"
  "load32 module_TRAP (0x258 + 4) = 0x020f0000"
  "load32 module_TRAP (0x258 + 8) = 0"
  "load32 module_TRAP (0x258 + 12) = 0"
  "load32 module_TRAP 0x268 = 0x01020000"
  "load32 module_TRAP (0x268 + 4) = 0"
  "load32 module_TRAP (0x268 + 8) = 0"
  "load32 module_TRAP (0x268 + 12) = 0"
  by (simp_all add: load32_def module_TRAP_def)

lemma decode_TRAP:
  "note_val 0x72017100 = 0x72" "note_inst 0x72017100 = 0" "note_freq 0x72017100 = 113"
  "note_command 0x72017100 = 1"
  "note_val 0x020f0000 = 2" "note_inst 0x020f0000 = 0" "note_freq 0x020f0000 = 0"
  "note_command 0x020f0000 = 15"
  "note_val 0x01020000 = 1" "note_inst 0x01020000 = 0" "note_freq 0x01020000 = 0"
  "note_command 0x01020000 = 2"
  by (simp_all add: note_val_def note_inst_def note_freq_def note_command_def)

lemma tick_row_chan_slide_up:
  assumes "load32 (mod_data mps) (fr + 4 * chan) = 0x72017100"
  shows "\<exists>c. tick_row_chan fr mps chan = Inr (set_chan mps chan c)
           \<and> c_pitch c = 113 \<and> c_effect c = 1 \<and> c_effect_param c = 114"
  using assms
  by (auto simp add: tick_row_chan_def host_to_LE32_def Let_def set_chan_fields decode_TRAP
        lmp_pi_from_pitch_nonzero lmp_process_command_def set_chan_twice)

lemma tick_row_chan_speed_2:
  "load32 (mod_data mps) (fr + 4 * chan) = 0x020f0000 \<Longrightarrow>
     tick_row_chan fr mps chan
       = Inr ((set_chan mps chan ((cs mps chan)\<lparr>c_effect := 0xff\<rparr>))\<lparr>speed := 2, tick_counter := 2\<rparr>)"
  by (simp add: tick_row_chan_def host_to_LE32_def decode_TRAP lmp_process_command_def)

lemma tick_row_chan_slide_down:
  "load32 (mod_data mps) (fr + 4 * chan) = 0x01020000 \<Longrightarrow>
     tick_row_chan fr mps chan
       = Inr (set_chan mps chan ((cs mps chan)\<lparr>c_effect := 2, c_effect_param := 1\<rparr>))"
  by (simp add: tick_row_chan_def host_to_LE32_def decode_TRAP lmp_process_command_def
        set_chan_fields set_chan_twice)

lemma TRAP_first_tick:
  "\<exists>s'. lmp_tick (init_mps zero_mps module_TRAP) = Inr (0, s') \<and> TRAP_slide_up s'
          \<and> sample_counter s' = 882"
proof -
  let ?ini = "init_mps zero_mps module_TRAP"
  let ?row = "?ini\<lparr>tick_counter := speed ?ini, pos_pattern := pos_pattern ?ini + 1\<rparr>"
  have fr: "patterns ?ini + 4 * unat (256 * ucast (mod_data ?ini
              (sequence ?ini + unat (pos ?ini))) + 4 * pos_pattern ?ini :: u32) = 0x258"
    by (simp add: init_mps_fields init_mps_layout TRAP_not_MK TRAP_bytes)
  obtain c where 1: "tick_row_chan 0x258 ?row 0 = Inr (set_chan ?row 0 c)"
    and c: "c_pitch c = 113" "c_effect c = 1" "c_effect_param c = 114"
    using tick_row_chan_slide_up [of ?row "0x258" 0] TRAP_cells
    by (auto simp add: init_mps_fields)
  let ?q1 = "set_chan ?row 0 c"
  let ?q2 = "(set_chan ?q1 1 ((cs ?q1 1)\<lparr>c_effect := 0xff\<rparr>))\<lparr>speed := 2, tick_counter := 2\<rparr>"
  have 2: "tick_row_chan 0x258 ?q1 1 = Inr ?q2"
    using TRAP_cells by (simp add: tick_row_chan_speed_2 set_chan_fields init_mps_fields)
  let ?q3 = "set_chan ?q2 2 ((cs ?q2 2)\<lparr>c_effect := 0xff\<rparr>)"
  have 3: "tick_row_chan 0x258 ?q2 2 = Inr ?q3"
    using TRAP_cells by (simp add: tick_row_chan_empty set_chan_fields init_mps_fields)
  let ?q4 = "set_chan ?q3 3 ((cs ?q3 3)\<lparr>c_effect := 0xff\<rparr>)"
  have 4: "tick_row_chan 0x258 ?q3 3 = Inr ?q4"
    using TRAP_cells by (simp add: tick_row_chan_empty set_chan_fields init_mps_fields)
  have "for_each (tick_row_chan 0x258) [0..<4] ?row = Inr ?q4"
    using 1 2 3 4 by (simp add: upt_4)
  then have "for_each (tick_row_chan (patterns ?ini + 4 * unat (256 * ucast (mod_data ?ini
            (sequence ?ini + unat (pos ?ini))) + 4 * pos_pattern ?ini :: u32))) [0..<4] ?row
          = Inr ?q4"
    by (simp only: fr)
  moreover have "\<not> 63 < pos_pattern ?q4" and "\<not> ucast (length_m ?q4) \<le> pos ?q4"
    by (simp_all add: set_chan_def init_mps_fields init_mps_layout TRAP_not_MK TRAP_bytes)
  moreover have "\<not> 1 < tick_counter ?ini"
    by (simp add: init_mps_fields)
  ultimately have "lmp_tick ?ini = Inr (0, ?q4)"
    by (rule lmp_tick_row_continues [rotated])
  moreover have "TRAP_slide_up ?q4"
    using c
    by (simp add: TRAP_slide_up_def TRAP_player_def set_chan_def init_mps_fields init_mps_layout
          TRAP_not_MK TRAP_bytes)
  moreover have "sample_counter ?q4 = 882"
    by (simp add: set_chan_def init_mps_fields)
  ultimately show ?thesis
    by blast
qed

lemma TRAP_wrapped_tick:
  assumes "TRAP_wrapped mps" and "sample_counter mps = samples_per_tick mps"
  shows "\<exists>s'. lmp_tick mps = Inr (0, s') \<and> TRAP_slide_down s' \<and> sample_counter s' = 882"
proof -
  let ?row = "mps\<lparr>tick_counter := speed mps, pos_pattern := pos_pattern mps + 1\<rparr>"
  have p: "mod_data mps = module_TRAP" "sequence mps = 0x1d8" "patterns mps = 0x258"
    "length_m mps = 1" "pos mps = 0" "pos_pattern mps = 1" "speed mps = 2"
    "samples_per_tick mps = 882" "tick_counter mps = 1" "c_pitch (cs mps 0) = 0xffff"
    using assms(1) by (simp_all add: TRAP_wrapped_def TRAP_player_def)
  have fr: "patterns mps + 4 * unat (256 * ucast (mod_data mps
              (sequence mps + unat (pos mps))) + 4 * pos_pattern mps :: u32) = 0x268"
    by (simp add: p TRAP_bytes)
  let ?q1 = "set_chan ?row 0 ((cs ?row 0)\<lparr>c_effect := 2, c_effect_param := 1\<rparr>)"
  have 1: "tick_row_chan 0x268 ?row 0 = Inr ?q1"
    using TRAP_cells by (simp add: tick_row_chan_slide_down p)
  let ?q2 = "set_chan ?q1 1 ((cs ?q1 1)\<lparr>c_effect := 0xff\<rparr>)"
  have 2: "tick_row_chan 0x268 ?q1 1 = Inr ?q2"
    using TRAP_cells by (simp add: tick_row_chan_empty set_chan_fields p)
  let ?q3 = "set_chan ?q2 2 ((cs ?q2 2)\<lparr>c_effect := 0xff\<rparr>)"
  have 3: "tick_row_chan 0x268 ?q2 2 = Inr ?q3"
    using TRAP_cells by (simp add: tick_row_chan_empty set_chan_fields p)
  let ?q4 = "set_chan ?q3 3 ((cs ?q3 3)\<lparr>c_effect := 0xff\<rparr>)"
  have 4: "tick_row_chan 0x268 ?q3 3 = Inr ?q4"
    using TRAP_cells by (simp add: tick_row_chan_empty set_chan_fields p)
  have "for_each (tick_row_chan 0x268) [0..<4] ?row = Inr ?q4"
    using 1 2 3 4 by (simp add: upt_4)
  then have "for_each (tick_row_chan (patterns mps + 4 * unat (256 * ucast (mod_data mps
            (sequence mps + unat (pos mps))) + 4 * pos_pattern mps :: u32))) [0..<4] ?row
          = Inr ?q4"
    by (simp only: fr)
  moreover have "\<not> 63 < pos_pattern ?q4" and "\<not> ucast (length_m ?q4) \<le> pos ?q4"
    by (simp_all add: set_chan_def p)
  moreover have "\<not> 1 < tick_counter mps"
    by (simp add: p)
  ultimately have "lmp_tick mps = Inr (0, ?q4)"
    by (rule lmp_tick_row_continues [rotated])
  moreover have "TRAP_slide_down ?q4"
    by (simp add: TRAP_slide_down_def set_chan_def p)
  moreover have "sample_counter ?q4 = 882"
    using assms(2) by (simp add: set_chan_def p)
  ultimately show ?thesis
    by blast
qed

lemma TRAP_call_2:
  assumes "TRAP_slide_up mps" and "sample_counter mps = 882"
  shows "\<exists>out s'. lmp_fill_buffer mps 882 LMP_MONO = Some (Inr (1, out, s'))
           \<and> TRAP_wrapped s' \<and> sample_counter s' = 882"
proof -
  have modes: "LMP_MONO \<in> {LMP_MONO, LMP_STEREO_HARD, LMP_STEREO_SOFT}"
    by simp
  have u: "unat (sample_counter mps) = Suc 881"
    using assms(2) by simp
  from run_frames_to_tick [of TRAP_slide_up "\<lambda>s. TRAP_wrapped s \<and> sample_counter s = 882",
      OF TRAP_render(1) TRAP_sample_counter(1) TRAP_slide_up_tick assms(1) u, of mix_mono 0 "[]"]
  have "\<exists>out s'. run_frames mix_mono (Suc 881) 0 [] mps = Inr (1, out, s')
           \<and> TRAP_wrapped s' \<and> sample_counter s' = 882"
    by (simp only: if_True refl)
  then obtain out s' where "run_frames mix_mono (Suc 881) 0 [] mps = Inr (1, out, s')"
    and q: "TRAP_wrapped s'" "sample_counter s' = 882"
    by blast
  then have "lmp_fill_buffer mps 882 LMP_MONO = Some (Inr (1, out, s'))"
    using lmp_fill_buffer_run [OF modes, of 882 882 mps]
    by (simp add: frame_width_def mixer_def)
  with q show ?thesis
    by blast
qed

lemma TRAP_call_3:
  assumes "TRAP_wrapped mps" and "sample_counter mps = 882"
  shows "\<exists>out s'. lmp_fill_buffer mps 882 LMP_MONO = Some (Inr (1, out, s'))
           \<and> TRAP_slide_down s' \<and> sample_counter s' = 882"
proof -
  have modes: "LMP_MONO \<in> {LMP_MONO, LMP_STEREO_HARD, LMP_STEREO_SOFT}"
    by simp
  have u: "unat (sample_counter mps) = Suc 881"
    using assms(2) by simp
  from run_frames_to_tick [of TRAP_wrapped "\<lambda>s. TRAP_slide_down s \<and> sample_counter s = 882",
      OF TRAP_render(2) TRAP_sample_counter(2) TRAP_wrapped_tick assms(1) u, of mix_mono 0 "[]"]
  have "\<exists>out s'. run_frames mix_mono (Suc 881) 0 [] mps = Inr (1, out, s')
           \<and> TRAP_slide_down s' \<and> sample_counter s' = 882"
    by (simp only: if_True refl)
  then obtain out s' where "run_frames mix_mono (Suc 881) 0 [] mps = Inr (1, out, s')"
    and q: "TRAP_slide_down s'" "sample_counter s' = 882"
    by blast
  then have "lmp_fill_buffer mps 882 LMP_MONO = Some (Inr (1, out, s'))"
    using lmp_fill_buffer_run [OF modes, of 882 882 mps]
    by (simp add: frame_width_def mixer_def)
  with q show ?thesis
    by blast
qed

lemma TRAP_call_4:
  assumes "TRAP_slide_down mps" and "sample_counter mps = 882"
  shows "lmp_fill_buffer mps 882 LMP_MONO = Some (Inl DivByZero)"
proof -
  have modes: "LMP_MONO \<in> {LMP_MONO, LMP_STEREO_HARD, LMP_STEREO_SOFT}"
    by simp
  have u: "unat (sample_counter mps) = Suc 881"
    using assms(2) by simp
  from run_frames_to_fault [of TRAP_slide_down DivByZero,
      OF TRAP_render(3) TRAP_sample_counter(3) TRAP_slide_down_tick assms(1) u, of mix_mono 0 "[]"]
  have "run_frames mix_mono (Suc 881) 0 [] mps = Inl DivByZero" .
  then show ?thesis
    using lmp_fill_buffer_run [OF modes, of 882 882 mps]
    by (simp add: frame_width_def mixer_def)
qed

lemma fourth_call_divides_by_zero:
  "fill_return
     (then_fill (then_fill (then_fill
        (lmp_fill_buffer (init_mps zero_mps module_TRAP) 882 LMP_MONO)
        882 LMP_MONO) 882 LMP_MONO) 882 LMP_MONO)
     = Some (Inl DivByZero)"
proof -
  obtain s1 where t: "lmp_tick (init_mps zero_mps module_TRAP) = Inr (0, s1)"
    and p1: "TRAP_slide_up s1" "sample_counter s1 = 882"
    using TRAP_first_tick by blast
  have c1: "lmp_fill_buffer (init_mps zero_mps module_TRAP) 882 LMP_MONO
              = Some (Inr (1, replicate 882 0, s1))"
    using init_first_call [OF t] by simp
  obtain out2 s2 where c2: "lmp_fill_buffer s1 882 LMP_MONO = Some (Inr (1, out2, s2))"
    and p2: "TRAP_wrapped s2" "sample_counter s2 = 882"
    using TRAP_call_2 [OF p1] by blast
  obtain out3 s3 where c3: "lmp_fill_buffer s2 882 LMP_MONO = Some (Inr (1, out3, s3))"
    and p3: "TRAP_slide_down s3" "sample_counter s3 = 882"
    using TRAP_call_3 [OF p2] by blast
  have c4: "lmp_fill_buffer s3 882 LMP_MONO = Some (Inl DivByZero)"
    using p3 by (rule TRAP_call_4)
  show ?thesis
    by (simp add: fill_return_def then_fill_def c1 c2 c3 c4)
qed

section \<open>What a call of the fill routine returns\<close>





end
